theory Spec2Isabelle
  imports Main "HOL-Library.Char_ord" "HOL-Library.List_Lexorder"
begin

section \<open>Errors\<close>

text \<open>
  Every exception the modelled Python code can raise is a value of this type. A function
  that may raise returns \<open>py_error + 'a\<close>, with \<open>Inl\<close> for the exception.
\<close>

datatype py_error =
    ValueError
  | KeyError
  | TypeError
  | AttributeError
  | RuntimeError
  | NotFound
  | CallbackError
  | FetchError

section \<open>util.py\<close>

text \<open>
  \<^verbatim>\<open>percentage_to_ordered_list_item(ordered_list, percentage)\<close>: the \<^verbatim>\<open>for\<close> loop over
  \<^verbatim>\<open>enumerate(ordered_list)\<close> is \<open>percentage_loop\<close>; it carries the offset and the length
  of the whole list. \<open>None\<close> means the loop ran to its end without returning.
\<close>

fun percentage_loop :: "'a list \<Rightarrow> nat \<Rightarrow> nat \<Rightarrow> int \<Rightarrow> 'a option" where
  "percentage_loop [] offset list_len percentage = None"
| "percentage_loop (speed # rest) offset list_len percentage =
     (let list_position = offset + 1;
          upper_bound = (list_position * 100) div list_len
      in if percentage \<le> int upper_bound then Some speed
         else percentage_loop rest (offset + 1) list_len percentage)"

definition percentage_to_ordered_list_item :: "'a list \<Rightarrow> int \<Rightarrow> py_error + 'a" where
  "percentage_to_ordered_list_item ordered_list percentage =
     (let list_len = length ordered_list
      in if list_len = 0 then Inl ValueError
         else (case percentage_loop ordered_list 0 list_len percentage of
                 Some speed \<Rightarrow> Inr speed
               | None \<Rightarrow> Inr (last ordered_list)))"

text \<open>\<^verbatim>\<open>list.index(item)\<close>: the first position holding the item, \<open>None\<close> where Python raises.\<close>

fun index_of :: "'a list \<Rightarrow> 'a \<Rightarrow> nat option" where
  "index_of [] item = None"
| "index_of (x # xs) item =
     (if x = item then Some 0
      else (case index_of xs item of None \<Rightarrow> None | Some i \<Rightarrow> Some (Suc i)))"

definition ordered_list_item_to_percentage :: "'a list \<Rightarrow> 'a \<Rightarrow> py_error + int" where
  "ordered_list_item_to_percentage ordered_list item =
     (if item \<notin> set ordered_list then Inl ValueError
      else (case index_of ordered_list item of
              None \<Rightarrow> Inl ValueError
            | Some i \<Rightarrow>
                (let list_len = length ordered_list;
                     list_position = i + 1
                 in Inr (int ((list_position * 100) div list_len)))))"

section \<open>device.py\<close>

text \<open>
  A state's \<^verbatim>\<open>value\<close> is whatever the service's JSON holds. Strings, booleans, integers
  and \<^verbatim>\<open>None\<close> are modelled; \<open>py_eq\<close> is Python's \<^verbatim>\<open>==\<close> on them, where
  \<^verbatim>\<open>True == 1\<close> and \<^verbatim>\<open>False == 0\<close>.
\<close>

datatype hs_value = VStr string | VBool bool | VInt int | VNone

fun py_eq :: "hs_value \<Rightarrow> hs_value \<Rightarrow> bool" where
  "py_eq (VStr a) (VStr b) = (a = b)"
| "py_eq (VBool a) (VBool b) = (a = b)"
| "py_eq (VInt a) (VInt b) = (a = b)"
| "py_eq (VBool a) (VInt b) = ((if a then 1 else 0) = b)"
| "py_eq (VInt a) (VBool b) = (a = (if b then 1 else 0))"
| "py_eq VNone VNone = True"
| "py_eq _ _ = False"

record hubspace_state =
  functionClass :: string
  state_value :: hs_value
  lastUpdateTime :: "int option"
  functionInstance :: "string option"

text \<open>
  An entry of \<^verbatim>\<open>functions\<close> is a dict; a key that may be absent is an option. Of an entry of
  its \<^verbatim>\<open>values\<close> list only the key \<^verbatim>\<open>name\<close> is read.
\<close>

record function_value =
  fv_name :: "string option"

record hs_function =
  fn_functionClass :: "string option"
  fn_functionInstance :: "string option"
  fn_values :: "function_value list option"

record hubspace_device =
  hs_id :: string
  hs_device_id :: string
  hs_model :: string
  hs_device_class :: string
  hs_default_name :: string
  hs_default_image :: string
  hs_friendly_name :: string
  hs_functions :: "hs_function list"
  hs_states :: "hubspace_state list"
  hs_children :: "string list"
  hs_manufacturerName :: "string option"

fun get_function_loop :: "hs_function list \<Rightarrow> string \<Rightarrow> string option \<Rightarrow> hs_function option" where
  "get_function_loop [] function_class function_instance = None"
| "get_function_loop (func # rest) function_class function_instance =
     (if fn_functionClass func \<noteq> Some function_class
      then get_function_loop rest function_class function_instance
      else if fn_functionInstance func \<noteq> function_instance
      then get_function_loop rest function_class function_instance
      else Some func)"

definition get_function_from_device ::
  "hubspace_device \<Rightarrow> string \<Rightarrow> string option \<Rightarrow> hs_function option" where
  "get_function_from_device hs_device function_class function_instance =
     get_function_loop (hs_functions hs_device) function_class function_instance"

section \<open>The fan model\<close>

text \<open>
  The feature classes and the class \<^verbatim>\<open>Fan\<close> are records of the fields that
  \<^verbatim>\<open>FanController\<close> passes to their constructors and reads back. The constructor's first
  argument, the device's function list, is kept as the field \<open>fan_functions\<close>.
\<close>

record on_feature =
  on :: bool

record speed_feature =
  speed :: int
  speeds :: "string list"

record direction_feature =
  forward :: bool

record preset_feature =
  enabled :: bool
  func_class :: string
  func_instance :: "string option"

record device_information =
  di_device_class :: string
  di_default_image :: string
  di_default_name :: string
  di_manufacturer :: "string option"
  di_model :: string
  di_name :: string
  di_parent_id :: string

record fan =
  fan_functions :: "hs_function list"
  fan_id :: string
  fan_available :: hs_value
  fan_device_information :: device_information
  fan_on :: "on_feature option"
  fan_speed :: "speed_feature option"
  fan_direction :: "direction_feature option"
  fan_preset :: "preset_feature option"

type_synonym fan_items = "string \<rightharpoonup> fan"

section \<open>controllers/fan.py\<close>

definition KNOWN_PRESETS :: "string set" where
  "KNOWN_PRESETS = {''comfort-breeze''}"

definition in_known_presets :: "string option \<Rightarrow> bool" where
  "in_known_presets function_instance =
     (case function_instance of None \<Rightarrow> False | Some i \<Rightarrow> i \<in> KNOWN_PRESETS)"

definition endswith :: "string \<Rightarrow> string \<Rightarrow> bool" where
  "endswith s suffix_str =
     (length suffix_str \<le> length s \<and> drop (length s - length suffix_str) s = suffix_str)"

text \<open>The locals of \<^verbatim>\<open>initialize_elem\<close>, set while the states are read.\<close>

record fan_locals =
  l_available :: hs_value
  l_on :: "on_feature option"
  l_speed :: "speed_feature option"
  l_direction :: "direction_feature option"
  l_preset :: "preset_feature option"

text \<open>
  The inner loop of the \<^verbatim>\<open>fan-speed\<close> branch: \<^verbatim>\<open>value["name"]\<close> raises KeyError on a
  missing key; names ending in \<^verbatim>\<open>-000\<close> are left out of the set \<^verbatim>\<open>tmp_speed\<close>.
\<close>

fun collect_speed_names :: "function_value list \<Rightarrow> string set \<Rightarrow> py_error + string set" where
  "collect_speed_names [] tmp_speed = Inr tmp_speed"
| "collect_speed_names (v # rest) tmp_speed =
     (case fv_name v of
        None \<Rightarrow> Inl KeyError
      | Some n \<Rightarrow>
          (if \<not> endswith n ''-000'' then collect_speed_names rest (insert n tmp_speed)
           else collect_speed_names rest tmp_speed))"

text \<open>
  \<^verbatim>\<open>speeds["values"]\<close> raises TypeError when no function matched (\<^verbatim>\<open>speeds\<close> is
  \<^verbatim>\<open>None\<close>) and KeyError when the function has no \<^verbatim>\<open>values\<close>.
\<close>

definition fan_speed_feature ::
  "hubspace_device \<Rightarrow> hubspace_state \<Rightarrow> py_error + speed_feature" where
  "fan_speed_feature hs_device state =
     (case get_function_from_device hs_device (functionClass state) (functionInstance state) of
        None \<Rightarrow> Inl TypeError
      | Some func \<Rightarrow>
          (case fn_values func of
             None \<Rightarrow> Inl KeyError
           | Some vals \<Rightarrow>
               (case collect_speed_names vals {} of
                  Inl e \<Rightarrow> Inl e
                | Inr tmp_speed \<Rightarrow>
                    (let sorted_speeds = sorted_list_of_set tmp_speed
                     in (case ordered_list_item_to_percentage
                                (map VStr sorted_speeds) (state_value state) of
                           Inl e \<Rightarrow> Inl e
                         | Inr percentage \<Rightarrow>
                             Inr \<lparr>speed = percentage, speeds = sorted_speeds\<rparr>)))))"

text \<open>The body of the loop over the states in \<^verbatim>\<open>initialize_elem\<close>, and the loop.\<close>

definition initialize_state ::
  "hubspace_device \<Rightarrow> hubspace_state \<Rightarrow> fan_locals \<Rightarrow> py_error + fan_locals" where
  "initialize_state hs_device state loc =
     (if functionClass state = ''power'' then
        Inr (loc\<lparr>l_on := Some \<lparr>on = (state_value state = VStr ''on'')\<rparr>\<rparr>)
      else if functionClass state = ''fan-speed'' then
        (case fan_speed_feature hs_device state of
           Inl e \<Rightarrow> Inl e
         | Inr sp \<Rightarrow> Inr (loc\<lparr>l_speed := Some sp\<rparr>))
      else if functionClass state = ''fan-reverse'' then
        Inr (loc\<lparr>l_direction := Some \<lparr>forward = (state_value state = VStr ''forward'')\<rparr>\<rparr>)
      else if functionClass state = ''toggle'' \<and> in_known_presets (functionInstance state) then
        Inr (loc\<lparr>l_preset := Some \<lparr>enabled = (state_value state = VStr ''enabled''),
                                   func_class = functionClass state,
                                   func_instance = functionInstance state\<rparr>\<rparr>)
      else if functionClass state = ''available'' then
        Inr (loc\<lparr>l_available := state_value state\<rparr>)
      else Inr loc)"

fun initialize_states ::
  "hubspace_device \<Rightarrow> hubspace_state list \<Rightarrow> fan_locals \<Rightarrow> py_error + fan_locals" where
  "initialize_states hs_device [] loc = Inr loc"
| "initialize_states hs_device (state # rest) loc =
     (case initialize_state hs_device state loc of
        Inl e \<Rightarrow> Inl e
      | Inr loc' \<Rightarrow> initialize_states hs_device rest loc')"

definition initial_locals :: fan_locals where
  "initial_locals =
     \<lparr>l_available = VBool False, l_on = None, l_speed = None,
      l_direction = None, l_preset = None\<rparr>"

definition make_fan :: "hubspace_device \<Rightarrow> fan_locals \<Rightarrow> fan" where
  "make_fan hs_device loc =
     \<lparr>fan_functions = hs_functions hs_device,
      fan_id = hs_id hs_device,
      fan_available = l_available loc,
      fan_device_information =
        \<lparr>di_device_class = hs_device_class hs_device,
         di_default_image = hs_default_image hs_device,
         di_default_name = hs_default_name hs_device,
         di_manufacturer = hs_manufacturerName hs_device,
         di_model = hs_model hs_device,
         di_name = hs_friendly_name hs_device,
         di_parent_id = hs_device_id hs_device\<rparr>,
      fan_on = l_on loc,
      fan_speed = l_speed loc,
      fan_direction = l_direction loc,
      fan_preset = l_preset loc\<rparr>"

text \<open>
  \<^verbatim>\<open>initialize_elem\<close> stores the new model under the device's id and returns it. An
  exception raised while the states are read leaves the store as it was.
\<close>

definition initialize_elem :: "fan_items \<Rightarrow> hubspace_device \<Rightarrow> py_error + (fan \<times> fan_items)" where
  "initialize_elem items hs_device =
     (case initialize_states hs_device (hs_states hs_device) initial_locals of
        Inl e \<Rightarrow> Inl e
      | Inr loc \<Rightarrow>
          (let new_fan = make_fan hs_device loc
           in Inr (new_fan, items(hs_id hs_device \<mapsto> new_fan))))"

text \<open>
  Modelled from the spec: \<^verbatim>\<open>get_device\<close> of the base controller, which is not among the
  sources; "\<^verbatim>\<open>get\<close> fails with NotFound when id is absent".
\<close>

definition get_device :: "fan_items \<Rightarrow> string \<Rightarrow> py_error + fan" where
  "get_device items device_id =
     (case items device_id of None \<Rightarrow> Inl NotFound | Some cur_item \<Rightarrow> Inr cur_item)"

text \<open>
  The body of the loop of \<^verbatim>\<open>update_elem\<close>, for one state. The current item is changed in
  place, so the body takes it together with \<^verbatim>\<open>updated_keys\<close> and returns both. Reading a
  field of a feature that is \<^verbatim>\<open>None\<close> raises AttributeError.
\<close>

definition update_state ::
  "hubspace_state \<Rightarrow> fan \<Rightarrow> string set \<Rightarrow> py_error + (fan \<times> string set)" where
  "update_state state cur_item updated_keys =
     (if functionClass state = ''power'' then
        (case fan_on cur_item of
           None \<Rightarrow> Inl AttributeError
         | Some f \<Rightarrow>
             (let new_val = (state_value state = VStr ''on'')
              in if on f \<noteq> new_val
                 then Inr (cur_item\<lparr>fan_on := Some (f\<lparr>on := new_val\<rparr>)\<rparr>,
                           insert ''on'' updated_keys)
                 else Inr (cur_item, updated_keys)))
      else if functionClass state = ''fan-speed'' then
        (case fan_speed cur_item of
           None \<Rightarrow> Inl AttributeError
         | Some f \<Rightarrow>
             (case ordered_list_item_to_percentage (map VStr (speeds f)) (state_value state) of
                Inl e \<Rightarrow> Inl e
              | Inr new_val \<Rightarrow>
                  (if speed f \<noteq> new_val
                   then Inr (cur_item\<lparr>fan_speed := Some (f\<lparr>speed := new_val\<rparr>)\<rparr>,
                             insert ''speed'' updated_keys)
                   else Inr (cur_item, updated_keys))))
      else if functionClass state = ''fan-reverse'' then
        (case fan_direction cur_item of
           None \<Rightarrow> Inl AttributeError
         | Some f \<Rightarrow>
             (let new_val = (state_value state = VStr ''forward'')
              in if forward f \<noteq> new_val
                 then Inr (cur_item\<lparr>fan_direction := Some (f\<lparr>forward := new_val\<rparr>)\<rparr>,
                           insert ''direction'' updated_keys)
                 else Inr (cur_item, updated_keys)))
      else if functionClass state = ''toggle'' \<and> in_known_presets (functionInstance state) then
        (case fan_preset cur_item of
           None \<Rightarrow> Inl AttributeError
         | Some f \<Rightarrow>
             (let new_val = (state_value state = VStr ''enabled'')
              in if enabled f \<noteq> new_val
                 then Inr (cur_item\<lparr>fan_preset := Some (f\<lparr>enabled := new_val\<rparr>)\<rparr>,
                           insert ''preset'' updated_keys)
                 else Inr (cur_item, updated_keys)))
      else if functionClass state = ''available'' then
        (if \<not> py_eq (fan_available cur_item) (state_value state)
         then Inr (cur_item\<lparr>fan_available := state_value state\<rparr>,
                   insert ''available'' updated_keys)
         else Inr (cur_item, updated_keys))
      else Inr (cur_item, updated_keys))"

text \<open>
  The loop over the states. An exception ends it; the item keeps the changes made before.
\<close>

fun update_states ::
  "hubspace_state list \<Rightarrow> fan \<Rightarrow> string set \<Rightarrow> py_error option \<times> fan \<times> string set" where
  "update_states [] cur_item updated_keys = (None, cur_item, updated_keys)"
| "update_states (state # rest) cur_item updated_keys =
     (case update_state state cur_item updated_keys of
        Inl e \<Rightarrow> (Some e, cur_item, updated_keys)
      | Inr (cur_item', updated_keys') \<Rightarrow> update_states rest cur_item' updated_keys')"

definition update_elem ::
  "fan_items \<Rightarrow> hubspace_device \<Rightarrow> (py_error + string set) \<times> fan_items" where
  "update_elem items hs_device =
     (case get_device items (hs_id hs_device) of
        Inl e \<Rightarrow> (Inl e, items)
      | Inr cur_item \<Rightarrow>
          (case update_states (hs_states hs_device) cur_item {} of
             (Some e, cur_item', updated_keys) \<Rightarrow>
               (Inl e, items(hs_id hs_device \<mapsto> cur_item'))
           | (None, cur_item', updated_keys) \<Rightarrow>
               (Inr updated_keys, items(hs_id hs_device \<mapsto> cur_item'))))"

section \<open>v1/__init__.py: the registry of the bridge\<close>

text \<open>
  \<^verbatim>\<open>_known_devs\<close> is a set of device ids. \<open>controller_item_ids\<close> stands for the ids of the
  items held by the initialised controllers, and \<open>tracked_device_classes\<close> for the value of
  the property of that name; both come from the controllers and are fixed during one pass
  of the reader.
\<close>

record bridge =
  known_devs :: "string set"
  controller_item_ids :: "string set"
  tracked_device_classes :: "string set"

text \<open>
  The property \<^verbatim>\<open>tracked_devices\<close> fills an empty \<^verbatim>\<open>_known_devs\<close> from the controllers
  before it returns it; the function gives the bridge after that side effect.
\<close>

definition tracked_devices :: "bridge \<Rightarrow> bridge" where
  "tracked_devices b =
     (if known_devs b = {} then b\<lparr>known_devs := controller_item_ids b\<rparr> else b)"

definition add_device :: "bridge \<Rightarrow> string \<Rightarrow> bridge" where
  "add_device b device_id = b\<lparr>known_devs := insert device_id (known_devs b)\<rparr>"

text \<open>\<^verbatim>\<open>set.remove\<close> raises KeyError for an element that is not in the set.\<close>

definition remove_device :: "bridge \<Rightarrow> string \<Rightarrow> py_error + bridge" where
  "remove_device b device_id =
     (if device_id \<in> known_devs b
      then Inr (b\<lparr>known_devs := known_devs b - {device_id}\<rparr>)
      else Inl KeyError)"

section \<open>controllers/event.py\<close>

datatype EventStreamStatus = ST_CONNECTING | ST_CONNECTED | ST_DISCONNECTED

datatype EventType =
    RESOURCE_ADDED
  | RESOURCE_UPDATED
  | RESOURCE_DELETED
  | CONNECTED
  | DISCONNECTED
  | RECONNECTED

text \<open>The key \<^verbatim>\<open>device\<close> of an event is not required: \<open>None\<close> is an event without it.\<close>

record HubSpaceEvent =
  ev_type :: EventType
  ev_device_id :: string
  ev_device :: "hubspace_device option"

text \<open>
  A callback is known by a name; \<open>cb_is_coroutine\<close> is \<^verbatim>\<open>iscoroutinefunction(callback)\<close> and
  \<open>cb_raises\<close> tells for which arguments the call raises. A subscription is the tuple that
  \<^verbatim>\<open>subscribe\<close> stores.
\<close>

record callback =
  cb_name :: string
  cb_is_coroutine :: bool
  cb_raises :: "EventType \<Rightarrow> HubSpaceEvent option \<Rightarrow> bool"

type_synonym subscription = "callback \<times> EventType list option \<times> string list option"

type_synonym call = "string \<times> EventType \<times> HubSpaceEvent option"

datatype event_filter_arg = NoFilter | OneType EventType | TypeTuple "EventType list"

definition subscribe ::
  "subscription list \<Rightarrow> callback \<Rightarrow> event_filter_arg \<Rightarrow> string list option \<Rightarrow> subscription list" where
  "subscribe subscribers cb event_filter resource_filter =
     (let event_filter' =
            (case event_filter of
               NoFilter \<Rightarrow> None
             | OneType t \<Rightarrow> Some [t]
             | TypeTuple ts \<Rightarrow> Some ts)
      in subscribers @ [(cb, event_filter', resource_filter)])"

text \<open>
  \<^verbatim>\<open>emit\<close> appends every call it makes to the log. A coroutine callback is handed to
  \<^verbatim>\<open>asyncio.create_task\<close>, which returns at once; a plain callback is called inline, and an
  exception it raises leaves \<^verbatim>\<open>emit\<close>, since there is no \<^verbatim>\<open>try\<close> around the call.
\<close>

definition resource_filtered :: "string list option \<Rightarrow> HubSpaceEvent option \<Rightarrow> bool" where
  "resource_filtered resource_filter data =
     (case data of
        None \<Rightarrow> False
      | Some d \<Rightarrow>
          (case resource_filter of
             None \<Rightarrow> False
           | Some rf \<Rightarrow>
               (case ev_device d of
                  None \<Rightarrow> False
                | Some dev \<Rightarrow> hs_device_class dev \<notin> set rf)))"

fun emit ::
  "subscription list \<Rightarrow> EventType \<Rightarrow> HubSpaceEvent option \<Rightarrow> call list
     \<Rightarrow> py_error option \<times> call list" where
  "emit [] event_type data calls = (None, calls)"
| "emit ((cb, event_filter, resource_filter) # rest) event_type data calls =
     (if event_filter \<noteq> None \<and> event_type \<notin> set (the event_filter)
      then emit rest event_type data calls
      else if resource_filtered resource_filter data
      then emit rest event_type data calls
      else if cb_is_coroutine cb
      then emit rest event_type data (calls @ [(cb_name cb, event_type, data)])
      else if cb_raises cb event_type data
      then (Some CallbackError, calls @ [(cb_name cb, event_type, data)])
      else emit rest event_type data (calls @ [(cb_name cb, event_type, data)]))"

record event_stream =
  es_bridge :: bridge
  es_event_queue :: "HubSpaceEvent list"
  es_status :: EventStreamStatus
  es_subscribers :: "subscription list"
  es_calls :: "call list"

text \<open>
  The reader's \<^verbatim>\<open>for dev in data\<close> loop, over the devices that \<^verbatim>\<open>get_hs_device\<close> made of
  the fetched data. It threads the bridge, the queue, \<^verbatim>\<open>processed_ids\<close> and
  \<^verbatim>\<open>skipped_ids\<close>.
\<close>

fun classify_data ::
  "hubspace_device list \<Rightarrow> bridge \<Rightarrow> HubSpaceEvent list \<Rightarrow> string list \<Rightarrow> string list
     \<Rightarrow> bridge \<times> HubSpaceEvent list \<times> string list \<times> string list" where
  "classify_data [] b queue processed_ids skipped_ids = (b, queue, processed_ids, skipped_ids)"
| "classify_data (hs_dev # rest) b queue processed_ids skipped_ids =
     (let b1 = tracked_devices b;
          is_new = (hs_id hs_dev \<notin> known_devs b1);
          event_type = (if is_new then RESOURCE_ADDED else RESOURCE_UPDATED);
          b2 = (if is_new then add_device b1 (hs_id hs_dev) else b1)
      in if hs_device_class hs_dev \<notin> tracked_device_classes b2
         then classify_data rest b2 queue processed_ids (skipped_ids @ [hs_id hs_dev])
         else classify_data rest b2
                (queue @ [\<lparr>ev_type = event_type, ev_device_id = hs_id hs_dev,
                           ev_device = Some hs_dev\<rparr>])
                (processed_ids @ [hs_id hs_dev]) skipped_ids)"

text \<open>
  The \<^verbatim>\<open>else\<close> clause: \<^verbatim>\<open>for dev_id in self._bridge.tracked_devices\<close>. The first argument
  is the order in which the set iterator yields the ids. \<^verbatim>\<open>remove_device\<close> removes from
  the very set that is being iterated, so after the first removal the iterator's next step
  raises RuntimeError ("Set changed size during iteration"), also when no id is left.
\<close>

fun find_missing ::
  "string list \<Rightarrow> string list \<Rightarrow> bridge \<Rightarrow> HubSpaceEvent list
     \<Rightarrow> py_error option \<times> bridge \<times> HubSpaceEvent list" where
  "find_missing [] seen_ids b queue = (None, b, queue)"
| "find_missing (dev_id # rest) seen_ids b queue =
     (if dev_id \<notin> set seen_ids
      then (let queue' = queue @ [\<lparr>ev_type = RESOURCE_DELETED, ev_device_id = dev_id,
                                   ev_device = None\<rparr>]
            in (case remove_device b dev_id of
                  Inl e \<Rightarrow> (Some e, b, queue')
                | Inr b' \<Rightarrow> (Some RuntimeError, b', queue')))
      else find_missing rest seen_ids b queue)"

datatype fetch_result =
    Fetched "hubspace_device list"
  | FetchClientError
  | FetchTimeoutError
  | FetchOtherError

text \<open>
  One pass of the \<^verbatim>\<open>while True\<close> loop of the reader, up to the \<^verbatim>\<open>sleep\<close>. A client error or
  a timeout is logged and the pass goes on to the line that sets the status; any other
  exception is raised again and ends the reader. \<open>Some e\<close> is an exception that leaves the
  reader.
\<close>

definition event_reader_pass ::
  "string list \<Rightarrow> fetch_result \<Rightarrow> event_stream \<Rightarrow> py_error option \<times> event_stream" where
  "event_reader_pass iter_order fetched st =
     (case fetched of
        FetchClientError \<Rightarrow> (None, st\<lparr>es_status := ST_DISCONNECTED\<rparr>)
      | FetchTimeoutError \<Rightarrow> (None, st\<lparr>es_status := ST_DISCONNECTED\<rparr>)
      | FetchOtherError \<Rightarrow> (Some FetchError, st)
      | Fetched data \<Rightarrow>
          (case classify_data data (es_bridge st) (es_event_queue st) [] [] of
             (b, queue, processed_ids, skipped_ids) \<Rightarrow>
               (case find_missing iter_order (processed_ids @ skipped_ids)
                       (tracked_devices b) queue of
                  (Some e, b', queue') \<Rightarrow>
                    (Some e, st\<lparr>es_bridge := b', es_event_queue := queue'\<rparr>)
                | (None, b', queue') \<Rightarrow>
                    (None, st\<lparr>es_bridge := b', es_event_queue := queue',
                              es_status := ST_DISCONNECTED\<rparr>))))"

text \<open>
  The reader: the status is set to CONNECTING, then the passes follow each other until one
  raises. Each poll is given with the iteration order of the registry in its pass.
\<close>

fun event_reader_passes ::
  "(string list \<times> fetch_result) list \<Rightarrow> event_stream \<Rightarrow> py_error option \<times> event_stream" where
  "event_reader_passes [] st = (None, st)"
| "event_reader_passes ((iter_order, fetched) # polls) st =
     (case event_reader_pass iter_order fetched st of
        (Some e, st') \<Rightarrow> (Some e, st')
      | (None, st') \<Rightarrow> event_reader_passes polls st')"

definition event_reader ::
  "(string list \<times> fetch_result) list \<Rightarrow> event_stream \<Rightarrow> py_error option \<times> event_stream" where
  "event_reader polls st = event_reader_passes polls (st\<lparr>es_status := ST_CONNECTING\<rparr>)"

text \<open>
  The processor takes the events of the queue one by one and emits each. It has no
  \<^verbatim>\<open>try\<close>: an exception that leaves \<^verbatim>\<open>emit\<close> ends it, with the rest of the queue unread.
  With an empty queue it waits.
\<close>

fun event_processor_loop ::
  "subscription list \<Rightarrow> HubSpaceEvent list \<Rightarrow> call list
     \<Rightarrow> py_error option \<times> HubSpaceEvent list \<times> call list" where
  "event_processor_loop subscribers [] calls = (None, [], calls)"
| "event_processor_loop subscribers (event # queue) calls =
     (case emit subscribers (ev_type event) (Some event) calls of
        (Some e, calls') \<Rightarrow> (Some e, queue, calls')
      | (None, calls') \<Rightarrow> event_processor_loop subscribers queue calls')"

definition event_processor :: "event_stream \<Rightarrow> py_error option \<times> event_stream" where
  "event_processor st =
     (case event_processor_loop (es_subscribers st) (es_event_queue st) (es_calls st) of
        (err, queue, calls) \<Rightarrow> (err, st\<lparr>es_event_queue := queue, es_calls := calls\<rparr>))"

section \<open>Notions used to state the properties\<close>

text \<open>
  The features that \<^verbatim>\<open>update_elem\<close> tracks, and the feature a state belongs to: the
  branch of the \<^verbatim>\<open>if\<close> chain that the state takes.
\<close>

datatype fan_key = K_on | K_speed | K_direction | K_preset | K_available

definition state_key :: "hubspace_state \<Rightarrow> fan_key option" where
  "state_key state =
     (if functionClass state = ''power'' then Some K_on
      else if functionClass state = ''fan-speed'' then Some K_speed
      else if functionClass state = ''fan-reverse'' then Some K_direction
      else if functionClass state = ''toggle'' \<and> in_known_presets (functionInstance state)
      then Some K_preset
      else if functionClass state = ''available'' then Some K_available
      else None)"


text \<open>
  What one state of a snapshot says about a model: decoding raises (\<open>Inl\<close>), the decoded
  value equals the model's (\<open>Inr None\<close>), or it differs, with the name of the feature.
  The model is the one before the update, not the item as the loop has changed it so far.
\<close>

definition state_delta :: "fan \<Rightarrow> hubspace_state \<Rightarrow> py_error + string option" where
  "state_delta model state =
     (case state_key state of
        None \<Rightarrow> Inr None
      | Some K_on \<Rightarrow>
          (case fan_on model of
             None \<Rightarrow> Inl AttributeError
           | Some f \<Rightarrow>
               Inr (if on f \<noteq> (state_value state = VStr ''on'') then Some ''on'' else None))
      | Some K_speed \<Rightarrow>
          (case fan_speed model of
             None \<Rightarrow> Inl AttributeError
           | Some f \<Rightarrow>
               (case ordered_list_item_to_percentage (map VStr (speeds f)) (state_value state) of
                  Inl e \<Rightarrow> Inl e
                | Inr p \<Rightarrow> Inr (if speed f \<noteq> p then Some ''speed'' else None)))
      | Some K_direction \<Rightarrow>
          (case fan_direction model of
             None \<Rightarrow> Inl AttributeError
           | Some f \<Rightarrow>
               Inr (if forward f \<noteq> (state_value state = VStr ''forward'')
                    then Some ''direction'' else None))
      | Some K_preset \<Rightarrow>
          (case fan_preset model of
             None \<Rightarrow> Inl AttributeError
           | Some f \<Rightarrow>
               Inr (if enabled f \<noteq> (state_value state = VStr ''enabled'')
                    then Some ''preset'' else None))
      | Some K_available \<Rightarrow>
          Inr (if \<not> py_eq (fan_available model) (state_value state)
               then Some ''available'' else None))"

definition key_name :: "fan_key \<Rightarrow> string" where
  "key_name k = (case k of K_on \<Rightarrow> ''on'' | K_speed \<Rightarrow> ''speed'' | K_direction \<Rightarrow> ''direction''
                  | K_preset \<Rightarrow> ''preset'' | K_available \<Rightarrow> ''available'')"

definition same_shape :: "fan \<Rightarrow> fan \<Rightarrow> bool" where
  "same_shape m m' \<longleftrightarrow>
     (fan_on m' = None \<longleftrightarrow> fan_on m = None)
     \<and> map_option speeds (fan_speed m') = map_option speeds (fan_speed m)
     \<and> (fan_direction m' = None \<longleftrightarrow> fan_direction m = None)
     \<and> (fan_preset m' = None \<longleftrightarrow> fan_preset m = None)"

definition same_field :: "fan_key \<Rightarrow> fan \<Rightarrow> fan \<Rightarrow> bool" where
  "same_field k m m' =
     (case k of
        K_on \<Rightarrow> fan_on m' = fan_on m
      | K_speed \<Rightarrow> fan_speed m' = fan_speed m
      | K_direction \<Rightarrow> fan_direction m' = fan_direction m
      | K_preset \<Rightarrow> fan_preset m' = fan_preset m
      | K_available \<Rightarrow> fan_available m' = fan_available m)"


text \<open>
  The fan of the scenario: four speeds, running at 25 percent. \<open>scenario_device v\<close> is a
  snapshot of it whose only state is a fan speed with the value \<open>v\<close>.
\<close>

definition scenario_speeds :: "string list" where
  "scenario_speeds = [''speed-4-25'', ''speed-4-50'', ''speed-4-75'', ''speed-4-100'']"

definition scenario_fan :: fan where
  "scenario_fan =
     \<lparr>fan_functions = [], fan_id = ''fan-1'', fan_available = VBool True,
      fan_device_information =
        \<lparr>di_device_class = ''fan'', di_default_image = ''fan-icon'',
         di_default_name = ''Fan'', di_manufacturer = None, di_model = ''model'',
         di_name = ''Fan'', di_parent_id = ''parent-1''\<rparr>,
      fan_on = Some \<lparr>on = True\<rparr>,
      fan_speed = Some \<lparr>speed = 25, speeds = scenario_speeds\<rparr>,
      fan_direction = Some \<lparr>forward = True\<rparr>,
      fan_preset = None\<rparr>"

definition scenario_items :: fan_items where
  "scenario_items = [''fan-1'' \<mapsto> scenario_fan]"

definition scenario_state :: "string \<Rightarrow> hubspace_state" where
  "scenario_state v =
     \<lparr>functionClass = ''fan-speed'', state_value = VStr v,
      lastUpdateTime = None, functionInstance = Some ''fan-speed''\<rparr>"

definition scenario_device :: "string \<Rightarrow> hubspace_device" where
  "scenario_device v =
     \<lparr>hs_id = ''fan-1'', hs_device_id = ''parent-1'', hs_model = ''model'',
      hs_device_class = ''fan'', hs_default_name = ''Fan'', hs_default_image = ''fan-icon'',
      hs_friendly_name = ''Fan'', hs_functions = [],
      hs_states = [scenario_state v],
      hs_children = [], hs_manufacturerName = None\<rparr>"

text \<open>
  A store in which every model is kept under its own id, and the snapshots of the scenario
  for \<^verbatim>\<open>initialize_elem\<close>: a fan whose speed function has five values, with the power
  state and the speed state given. \<open>scenario_built\<close> is the model that
  \<^verbatim>\<open>initialize_elem\<close> makes of such a snapshot.
\<close>

definition keyed_by_id :: "fan_items \<Rightarrow> bool" where
  "keyed_by_id items \<longleftrightarrow> (\<forall>k m. items k = Some m \<longrightarrow> fan_id m = k)"

definition scenario_function :: hs_function where
  "scenario_function =
     \<lparr>fn_functionClass = Some ''fan-speed'', fn_functionInstance = Some ''fan-speed'',
      fn_values = Some [\<lparr>fv_name = Some ''fan-speed-4-000''\<rparr>,
                        \<lparr>fv_name = Some ''fan-speed-4-025''\<rparr>,
                        \<lparr>fv_name = Some ''fan-speed-4-050''\<rparr>,
                        \<lparr>fv_name = Some ''fan-speed-4-075''\<rparr>,
                        \<lparr>fv_name = Some ''fan-speed-4-100''\<rparr>]\<rparr>"

definition scenario_snapshot :: "string \<Rightarrow> string \<Rightarrow> hubspace_device" where
  "scenario_snapshot power_value speed_value =
     \<lparr>hs_id = ''fan-1'', hs_device_id = ''parent-1'', hs_model = ''model'',
      hs_device_class = ''fan'', hs_default_name = ''Fan'', hs_default_image = ''fan-icon'',
      hs_friendly_name = ''Fan'', hs_functions = [scenario_function],
      hs_states = [\<lparr>functionClass = ''power'', state_value = VStr power_value,
                    lastUpdateTime = None, functionInstance = Some ''fan-power''\<rparr>,
                   \<lparr>functionClass = ''fan-speed'', state_value = VStr speed_value,
                    lastUpdateTime = None, functionInstance = Some ''fan-speed''\<rparr>],
      hs_children = [], hs_manufacturerName = None\<rparr>"

definition scenario_built :: "bool \<Rightarrow> int \<Rightarrow> fan" where
  "scenario_built is_on percentage =
     \<lparr>fan_functions = [scenario_function], fan_id = ''fan-1'', fan_available = VBool False,
      fan_device_information =
        \<lparr>di_device_class = ''fan'', di_default_image = ''fan-icon'',
         di_default_name = ''Fan'', di_manufacturer = None, di_model = ''model'',
         di_name = ''Fan'', di_parent_id = ''parent-1''\<rparr>,
      fan_on = Some \<lparr>on = is_on\<rparr>,
      fan_speed = Some \<lparr>speed = percentage,
                         speeds = [''fan-speed-4-025'', ''fan-speed-4-050'',
                                   ''fan-speed-4-075'', ''fan-speed-4-100'']\<rparr>,
      fan_direction = None,
      fan_preset = None\<rparr>"

text \<open>
  The events a poll is expected to queue for the fetched snapshots, given the registry
  before the poll and the tracked classes: one event for each snapshot of a tracked class,
  in the order of the snapshots, \<^verbatim>\<open>add\<close> when the id is neither in the registry nor earlier
  in the list and \<^verbatim>\<open>update\<close> otherwise; every id met is taken as known from then on.
\<close>

fun expected_events :: "string set \<Rightarrow> string set \<Rightarrow> hubspace_device list \<Rightarrow> HubSpaceEvent list" where
  "expected_events registry classes [] = []"
| "expected_events registry classes (d # ds) =
     (if hs_device_class d \<in> classes
      then [\<lparr>ev_type = (if hs_id d \<in> registry then RESOURCE_UPDATED else RESOURCE_ADDED),
             ev_device_id = hs_id d, ev_device = Some d\<rparr>]
      else [])
     @ expected_events (insert (hs_id d) registry) classes ds"

text \<open>The registry as the reader sees it: \<^verbatim>\<open>tracked_devices\<close> of the bridge.\<close>

definition registry :: "event_stream \<Rightarrow> string set" where
  "registry st = known_devs (tracked_devices (es_bridge st))"

text \<open>
  The streams of the scenarios: a bridge that tracks lights and fans, with a given registry
  and no item in a controller; a snapshot is given by its id and its class; a listener is a
  plain callback that raises or not.
\<close>

definition snapshot_of :: "string \<Rightarrow> string \<Rightarrow> hubspace_device" where
  "snapshot_of device_id device_class =
     \<lparr>hs_id = device_id, hs_device_id = ''parent'', hs_model = ''model'',
      hs_device_class = device_class, hs_default_name = ''name'',
      hs_default_image = ''icon'', hs_friendly_name = ''name'', hs_functions = [],
      hs_states = [], hs_children = [], hs_manufacturerName = None\<rparr>"

definition listener :: "string \<Rightarrow> bool \<Rightarrow> callback" where
  "listener n raises =
     \<lparr>cb_name = n, cb_is_coroutine = False, cb_raises = (\<lambda>event_type data. raises)\<rparr>"

definition scenario_stream :: "string set \<Rightarrow> subscription list \<Rightarrow> event_stream" where
  "scenario_stream known subscribers =
     \<lparr>es_bridge = \<lparr>known_devs = known, controller_item_ids = {},
                    tracked_device_classes = {''light'', ''fan''}\<rparr>,
      es_event_queue = [], es_status = ST_CONNECTED,
      es_subscribers = subscribers, es_calls = []\<rparr>"

text \<open>
  When a subscription is to receive an event, in the words of the specification: the event
  type passes the type filter, and the category filter, if there is one, does not exclude
  the device the event carries; an event without a device passes every category filter.
\<close>

definition type_excluded :: "EventType list option \<Rightarrow> EventType \<Rightarrow> bool" where
  "type_excluded event_filter event_type =
     (case event_filter of None \<Rightarrow> False | Some ts \<Rightarrow> event_type \<notin> set ts)"

definition category_excluded :: "string list option \<Rightarrow> HubSpaceEvent option \<Rightarrow> bool" where
  "category_excluded resource_filter data =
     (case resource_filter of
        None \<Rightarrow> False
      | Some cs \<Rightarrow>
          (case data of
             None \<Rightarrow> False
           | Some d \<Rightarrow>
               (case ev_device d of
                  None \<Rightarrow> False
                | Some dev \<Rightarrow> hs_device_class dev \<notin> set cs)))"

definition subscription_matches ::
  "EventType \<Rightarrow> HubSpaceEvent option \<Rightarrow> subscription \<Rightarrow> bool" where
  "subscription_matches event_type data sub =
     (case sub of (cb, event_filter, resource_filter) \<Rightarrow>
        \<not> type_excluded event_filter event_type \<and> \<not> category_excluded resource_filter data)"

definition call_of :: "EventType \<Rightarrow> HubSpaceEvent option \<Rightarrow> subscription \<Rightarrow> call" where
  "call_of event_type data sub = (cb_name (fst sub), event_type, data)"

definition returns_normally :: "EventType \<Rightarrow> HubSpaceEvent option \<Rightarrow> subscription \<Rightarrow> bool" where
  "returns_normally event_type data sub =
     (cb_is_coroutine (fst sub) \<or> \<not> cb_raises (fst sub) event_type data)"

text \<open>The events of the scenarios.\<close>

definition resource_event :: "EventType \<Rightarrow> string \<Rightarrow> string \<Rightarrow> HubSpaceEvent" where
  "resource_event event_type device_id device_class =
     \<lparr>ev_type = event_type, ev_device_id = device_id,
      ev_device = Some (snapshot_of device_id device_class)\<rparr>"

definition deleted_event :: "string \<Rightarrow> HubSpaceEvent" where
  "deleted_event device_id =
     \<lparr>ev_type = RESOURCE_DELETED, ev_device_id = device_id, ev_device = None\<rparr>"

text \<open>
  A fan whose speed function has the unpadded names \<^verbatim>\<open>speed-4-25\<close> to \<^verbatim>\<open>speed-4-100\<close>, a
  snapshot of it with a given speed state, and the model that \<^verbatim>\<open>initialize_elem\<close> makes of
  such a snapshot: sorted as strings, \<^verbatim>\<open>speed-4-100\<close> comes first.
\<close>

definition unpadded_function :: hs_function where
  "unpadded_function =
     \<lparr>fn_functionClass = Some ''fan-speed'', fn_functionInstance = Some ''fan-speed'',
      fn_values = Some [\<lparr>fv_name = Some ''speed-4-25''\<rparr>,
                        \<lparr>fv_name = Some ''speed-4-50''\<rparr>,
                        \<lparr>fv_name = Some ''speed-4-75''\<rparr>,
                        \<lparr>fv_name = Some ''speed-4-100''\<rparr>]\<rparr>"

definition unpadded_snapshot :: "string \<Rightarrow> hubspace_device" where
  "unpadded_snapshot speed_value =
     \<lparr>hs_id = ''fan-1'', hs_device_id = ''parent-1'', hs_model = ''model'',
      hs_device_class = ''fan'', hs_default_name = ''Fan'', hs_default_image = ''fan-icon'',
      hs_friendly_name = ''Fan'', hs_functions = [unpadded_function],
      hs_states = [\<lparr>functionClass = ''fan-speed'', state_value = VStr speed_value,
                    lastUpdateTime = None, functionInstance = Some ''fan-speed''\<rparr>],
      hs_children = [], hs_manufacturerName = None\<rparr>"

definition unpadded_built :: "int \<Rightarrow> fan" where
  "unpadded_built percentage =
     \<lparr>fan_functions = [unpadded_function], fan_id = ''fan-1'', fan_available = VBool False,
      fan_device_information =
        \<lparr>di_device_class = ''fan'', di_default_image = ''fan-icon'',
         di_default_name = ''Fan'', di_manufacturer = None, di_model = ''model'',
         di_name = ''Fan'', di_parent_id = ''parent-1''\<rparr>,
      fan_on = None,
      fan_speed = Some \<lparr>speed = percentage,
                         speeds = [''speed-4-100'', ''speed-4-25'',
                                   ''speed-4-50'', ''speed-4-75'']\<rparr>,
      fan_direction = None,
      fan_preset = None\<rparr>"

section \<open>Properties of util.py\<close>

lemma div_100_strict_mono:
  fixes a b n :: nat
  assumes "0 < n" "n \<le> 100" "a < b"
  shows "(a * 100) div n < (b * 100) div n"
proof -
  have "a * 100 + n \<le> b * 100" using assms by simp
  then have "(a * 100 + n) div n \<le> (b * 100) div n" by (rule div_le_mono)
  moreover have "(a * 100 + n) div n = (a * 100) div n + 1"
    using assms(1) by (simp add: div_add_self2)
  ultimately show ?thesis by simp
qed

lemma percentage_loop_hits:
  "j < length xs \<Longrightarrow> 0 < n \<Longrightarrow> n \<le> 100 \<Longrightarrow>
   percentage_loop xs k n (int (((k + j + 1) * 100) div n)) = Some (xs ! j)"
proof (induction xs arbitrary: k j)
  case Nil
  then show ?case by simp
next
  case (Cons x rest)
  show ?case
  proof (cases j)
    case 0
    then show ?thesis by (simp add: Let_def)
  next
    case (Suc j')
    have lt: "((k + 1) * 100) div n < ((k + j + 1) * 100) div n"
      using div_100_strict_mono [of n "k + 1" "k + j + 1"] Cons.prems Suc by simp
    have "percentage_loop rest (k + 1) n (int ((((k + 1) + j' + 1) * 100) div n))
            = Some (rest ! j')"
      using Cons.IH [of j' "k + 1"] Cons.prems Suc by simp
    moreover have "(k + 1) + j' + 1 = k + j + 1" using Suc by simp
    ultimately show ?thesis using lt Suc by (simp add: Let_def)
  qed
qed

lemma index_of_None: "index_of l x = None \<longleftrightarrow> x \<notin> set l"
  by (induction l) (auto split: option.splits)

lemma index_of_Some:
  "index_of l x = Some i \<Longrightarrow> i < length l \<and> l ! i = x \<and> (\<forall>j<i. l ! j \<noteq> x)"
proof (induction l arbitrary: i)
  case Nil
  then show ?case by simp
next
  case (Cons y ys)
  show ?case
  proof (cases "y = x")
    case True
    with Cons.prems show ?thesis by simp
  next
    case False
    with Cons.prems obtain i' where i': "index_of ys x = Some i'" "i = Suc i'"
      by (auto split: option.splits)
    from Cons.IH [OF i'(1)]
    have ih: "i' < length ys" "ys ! i' = x" "\<forall>j<i'. ys ! j \<noteq> x" by auto
    show ?thesis using ih i'(2) False by (auto simp: nth_Cons split: nat.splits)
  qed
qed

text \<open>
  C9. For a list of at most 100 items and an item that occurs in it, taking the item to its
  percentage and the percentage back to an item gives the item again; neither call raises.
\<close>

theorem percentage_roundtrip:
  assumes "length l \<le> 100" and "x \<in> set l"
  shows "\<exists>p. ordered_list_item_to_percentage l x = Inr p
             \<and> percentage_to_ordered_list_item l p = Inr x"
proof -
  from assms(2) obtain i where i: "index_of l x = Some i"
    using index_of_None [of l x] by (cases "index_of l x") auto
  from index_of_Some [OF i] have il: "i < length l" "l ! i = x" by auto
  have n: "0 < length l" using il(1) by (cases l) auto
  have p: "ordered_list_item_to_percentage l x = Inr (int (((i + 1) * 100) div length l))"
    using assms(2) i by (simp add: ordered_list_item_to_percentage_def)
  have "percentage_loop l 0 (length l) (int (((0 + i + 1) * 100) div length l)) = Some (l ! i)"
    using percentage_loop_hits [OF il(1) n assms(1)] .
  then have "percentage_to_ordered_list_item l (int (((i + 1) * 100) div length l)) = Inr x"
    using n il by (simp add: percentage_to_ordered_list_item_def)
  with p show ?thesis by blast
qed

theorem percentage_roundtrip_witness:
  "length [''low'', ''medium'', ''high'', ''very_high''] \<le> 100
   \<and> ''high'' \<in> set [''low'', ''medium'', ''high'', ''very_high'']
   \<and> ordered_list_item_to_percentage [''low'', ''medium'', ''high'', ''very_high''] ''high''
       = Inr 75
   \<and> percentage_to_ordered_list_item [''low'', ''medium'', ''high'', ''very_high''] 75
       = Inr ''high''"
proof -
  have h1: "length [''low'', ''medium'', ''high'', ''very_high''] \<le> 100" by simp
  have h2: "''high'' \<in> set [''low'', ''medium'', ''high'', ''very_high'']" by simp
  have v: "ordered_list_item_to_percentage [''low'', ''medium'', ''high'', ''very_high''] ''high''
             = Inr 75"
    by (simp add: ordered_list_item_to_percentage_def)
  from percentage_roundtrip [OF h1 h2] v h1 h2 show ?thesis by auto
qed

section \<open>Properties of the fan controller\<close>

lemma update_state_by_key:
  "update_state s cur keys =
     (case state_key s of
        None \<Rightarrow> Inr (cur, keys)
      | Some K_on \<Rightarrow>
          (case fan_on cur of
             None \<Rightarrow> Inl AttributeError
           | Some f \<Rightarrow>
               (if on f \<noteq> (state_value s = VStr ''on'')
                then Inr (cur\<lparr>fan_on := Some (f\<lparr>on := (state_value s = VStr ''on'')\<rparr>)\<rparr>,
                          insert ''on'' keys)
                else Inr (cur, keys)))
      | Some K_speed \<Rightarrow>
          (case fan_speed cur of
             None \<Rightarrow> Inl AttributeError
           | Some f \<Rightarrow>
               (case ordered_list_item_to_percentage (map VStr (speeds f)) (state_value s) of
                  Inl e \<Rightarrow> Inl e
                | Inr p \<Rightarrow>
                    (if speed f \<noteq> p
                     then Inr (cur\<lparr>fan_speed := Some (f\<lparr>speed := p\<rparr>)\<rparr>, insert ''speed'' keys)
                     else Inr (cur, keys))))
      | Some K_direction \<Rightarrow>
          (case fan_direction cur of
             None \<Rightarrow> Inl AttributeError
           | Some f \<Rightarrow>
               (if forward f \<noteq> (state_value s = VStr ''forward'')
                then Inr (cur\<lparr>fan_direction :=
                                Some (f\<lparr>forward := (state_value s = VStr ''forward'')\<rparr>)\<rparr>,
                          insert ''direction'' keys)
                else Inr (cur, keys)))
      | Some K_preset \<Rightarrow>
          (case fan_preset cur of
             None \<Rightarrow> Inl AttributeError
           | Some f \<Rightarrow>
               (if enabled f \<noteq> (state_value s = VStr ''enabled'')
                then Inr (cur\<lparr>fan_preset :=
                                Some (f\<lparr>enabled := (state_value s = VStr ''enabled'')\<rparr>)\<rparr>,
                          insert ''preset'' keys)
                else Inr (cur, keys)))
      | Some K_available \<Rightarrow>
          (if \<not> py_eq (fan_available cur) (state_value s)
           then Inr (cur\<lparr>fan_available := state_value s\<rparr>, insert ''available'' keys)
           else Inr (cur, keys)))"
  unfolding update_state_def state_key_def Let_def
  by (simp del: insert_iff)

lemma key_cases:
  obtains (none) "k = None" | (on) "k = Some K_on" | (speed) "k = Some K_speed"
    | (direction) "k = Some K_direction" | (preset) "k = Some K_preset"
    | (available) "k = Some K_available"
proof (cases k)
  case None
  then show ?thesis using none by simp
next
  case (Some a)
  then show ?thesis using on speed direction preset available by (cases a) auto
qed

lemma update_state_Inl:
  "update_state s cur keys = Inl e \<longleftrightarrow> state_delta cur s = Inl e"
  by (cases "state_key s" rule: key_cases)
     (simp_all add: update_state_by_key state_delta_def split: option.splits sum.splits)

lemma update_state_unchanged:
  "state_delta cur s = Inr None \<Longrightarrow> update_state s cur keys = Inr (cur, keys)"
  by (cases "state_key s" rule: key_cases)
     (simp_all add: update_state_by_key state_delta_def split: option.splits sum.splits if_splits)


lemma update_state_changed:
  "state_delta cur s = Inr (Some f) \<Longrightarrow> \<exists>cur'. update_state s cur keys = Inr (cur', insert f keys)"
  by (cases "state_key s" rule: key_cases)
     (simp_all add: update_state_by_key state_delta_def split: option.splits sum.splits if_splits)

lemma state_delta_name:
  "state_key s = Some k \<Longrightarrow> state_delta m s = Inr (Some x) \<Longrightarrow> x = key_name k"
  by (cases k)
     (simp_all add: state_delta_def key_name_def split: option.splits sum.splits if_splits)

lemma state_delta_no_key:
  "state_key s = None \<Longrightarrow> state_delta m s = Inr None"
  by (simp add: state_delta_def)

lemma state_delta_same_field:
  "state_key s = Some k \<Longrightarrow> same_field k m m' \<Longrightarrow> state_delta m' s = state_delta m s"
  by (cases k) (simp_all add: state_delta_def same_field_def)

lemma state_delta_same_shape:
  "same_shape m m' \<Longrightarrow> isl (state_delta m' s) = isl (state_delta m s)"
proof (cases "state_key s" rule: key_cases)
  case speed
  assume "same_shape m m'"
  then have sp: "map_option speeds (fan_speed m') = map_option speeds (fan_speed m)"
    by (simp add: same_shape_def)
  show ?thesis
  proof (cases "fan_speed m")
    case None
    with sp speed show ?thesis by (simp add: state_delta_def)
  next
    case (Some f)
    with sp obtain f' where "fan_speed m' = Some f'" "speeds f' = speeds f" by auto
    with Some speed show ?thesis by (simp add: state_delta_def split: sum.splits)
  qed
qed (auto simp: state_delta_def same_shape_def split: option.splits)

lemma update_state_same_shape:
  "update_state s cur keys = Inr (cur', keys') \<Longrightarrow> same_shape cur cur'"
  by (cases "state_key s" rule: key_cases)
     (auto simp: update_state_by_key same_shape_def split: option.splits sum.splits if_splits)

lemma update_state_same_field:
  "update_state s cur keys = Inr (cur', keys') \<Longrightarrow> state_key s \<noteq> Some k \<Longrightarrow>
   same_field k cur cur'"
  by (cases "state_key s" rule: key_cases; cases k)
     (auto simp: update_state_by_key same_field_def split: option.splits sum.splits if_splits)

lemma state_delta_other_stable:
  assumes u: "update_state s cur keys = Inr (c1, k1)"
    and d: "state_delta cur s = Inr (Some f)"
    and ne: "f' \<noteq> f"
  shows "state_delta c1 s2 = Inr (Some f') \<longleftrightarrow> state_delta cur s2 = Inr (Some f')"
proof -
  from d obtain k where k: "state_key s = Some k"
    using state_delta_no_key [of s cur] by (cases "state_key s") auto
  from state_delta_name [OF k d] have f: "f = key_name k" .
  show ?thesis
  proof (cases "state_key s2")
    case None
    then show ?thesis by (simp add: state_delta_no_key)
  next
    case (Some k2)
    show ?thesis
    proof (cases "k2 = k")
      case True
      with Some have k2: "state_key s2 = Some k" by simp
      have "state_delta c1 s2 \<noteq> Inr (Some f')"
        using state_delta_name [OF k2, of c1 f'] ne f by auto
      moreover have "state_delta cur s2 \<noteq> Inr (Some f')"
        using state_delta_name [OF k2, of cur f'] ne f by auto
      ultimately show ?thesis by simp
    next
      case False
      with k have "state_key s \<noteq> Some k2" by simp
      from update_state_same_field [OF u this] have "same_field k2 cur c1" .
      from state_delta_same_field [OF Some this] show ?thesis by simp
    qed
  qed
qed

lemma update_states_raises:
  "\<exists>s\<in>set ss. isl (state_delta cur s) \<Longrightarrow> \<exists>e. fst (update_states ss cur keys) = Some e"
proof (induction ss arbitrary: cur keys)
  case Nil
  then show ?case by simp
next
  case (Cons s rest)
  show ?case
  proof (cases "update_state s cur keys")
    case (Inl e)
    then show ?thesis by simp
  next
    case (Inr r)
    obtain c1 k1 where r: "r = (c1, k1)" by (cases r)
    have "\<not> isl (state_delta cur s)"
    proof
      assume "isl (state_delta cur s)"
      then obtain e where "state_delta cur s = Inl e" by (cases "state_delta cur s") auto
      then have "update_state s cur keys = Inl e" by (simp add: update_state_Inl)
      with Inr show False by simp
    qed
    with Cons.prems obtain s' where s': "s' \<in> set rest" "isl (state_delta cur s')" by auto
    from Inr r have "same_shape cur c1" by (auto dest: update_state_same_shape)
    from state_delta_same_shape [OF this, of s'] s'(2) have "isl (state_delta c1 s')" by simp
    with s'(1) have "\<exists>s\<in>set rest. isl (state_delta c1 s)" by blast
    from Cons.IH [OF this, of k1] show ?thesis using Inr r by simp
  qed
qed

lemma update_states_returns:
  "\<forall>s\<in>set ss. \<not> isl (state_delta cur s) \<Longrightarrow>
   \<exists>cur'. update_states ss cur keys
            = (None, cur', keys \<union> {f. \<exists>s\<in>set ss. state_delta cur s = Inr (Some f)})
          \<and> ((\<forall>s\<in>set ss. state_delta cur s = Inr None) \<longrightarrow> cur' = cur)"
proof (induction ss arbitrary: cur keys)
  case Nil
  then show ?case by simp
next
  case (Cons s rest)
  from Cons.prems obtain d where d: "state_delta cur s = Inr d"
    by (cases "state_delta cur s") auto
  from Cons.prems have rest: "\<forall>s\<in>set rest. \<not> isl (state_delta cur s)" by simp
  show ?case
  proof (cases d)
    case None
    with d have u: "update_state s cur keys = Inr (cur, keys)"
      by (simp add: update_state_unchanged)
    from Cons.IH [OF rest, of keys] obtain cur' where
      c: "update_states rest cur keys
            = (None, cur', keys \<union> {f. \<exists>s\<in>set rest. state_delta cur s = Inr (Some f)})"
         "(\<forall>s\<in>set rest. state_delta cur s = Inr None) \<longrightarrow> cur' = cur"
      by blast
    have "{f. \<exists>s'\<in>set (s # rest). state_delta cur s' = Inr (Some f)}
            = {f. \<exists>s\<in>set rest. state_delta cur s = Inr (Some f)}"
      using d None by auto
    with u c show ?thesis by simp
  next
    case (Some f)
    with d have df: "state_delta cur s = Inr (Some f)" by simp
    from update_state_changed [OF df, of keys] obtain c1 where
      u: "update_state s cur keys = Inr (c1, insert f keys)" by blast
    from update_state_same_shape [OF u] have sh: "same_shape cur c1" .
    have rest1: "\<forall>s\<in>set rest. \<not> isl (state_delta c1 s)"
      using rest state_delta_same_shape [OF sh] by simp
    from Cons.IH [OF rest1, of "insert f keys"] obtain cur' where
      c: "update_states rest c1 (insert f keys)
            = (None, cur', insert f keys \<union> {g. \<exists>s\<in>set rest. state_delta c1 s = Inr (Some g)})"
      by blast
    have "insert f {g. \<exists>s\<in>set rest. state_delta c1 s = Inr (Some g)}
            = insert f {g. \<exists>s\<in>set rest. state_delta cur s = Inr (Some g)}"
      using state_delta_other_stable [OF u df] by blast
    then have "insert f keys \<union> {g. \<exists>s\<in>set rest. state_delta c1 s = Inr (Some g)}
            = keys \<union> {g. \<exists>s'\<in>set (s # rest). state_delta cur s' = Inr (Some g)}"
      using df by auto
    with u c df show ?thesis by simp
  qed
qed

lemma update_elem_returns:
  assumes m: "items (hs_id d) = Some model"
    and ok: "\<forall>s\<in>set (hs_states d). \<not> isl (state_delta model s)"
  shows "\<exists>items'. update_elem items d
           = (Inr {f. \<exists>s\<in>set (hs_states d). state_delta model s = Inr (Some f)}, items')
         \<and> ((\<forall>s\<in>set (hs_states d). state_delta model s = Inr None) \<longrightarrow> items' = items)"
proof -
  from update_states_returns [OF ok, of "{}"] obtain cur' where
    c: "update_states (hs_states d) model {}
          = (None, cur', {f. \<exists>s\<in>set (hs_states d). state_delta model s = Inr (Some f)})"
       "(\<forall>s\<in>set (hs_states d). state_delta model s = Inr None) \<longrightarrow> cur' = model"
    by auto
  have "(\<forall>s\<in>set (hs_states d). state_delta model s = Inr None)
          \<longrightarrow> items(hs_id d \<mapsto> cur') = items"
    using c(2) m by (auto simp: map_upd_triv)
  with c(1) m show ?thesis by (simp add: update_elem_def get_device_def)
qed

lemma update_elem_raises:
  assumes m: "items (hs_id d) = Some model"
    and bad: "\<exists>s\<in>set (hs_states d). isl (state_delta model s)"
  shows "\<exists>e. fst (update_elem items d) = Inl e"
proof -
  from update_states_raises [OF bad, of "{}"] obtain e where
    "fst (update_states (hs_states d) model {}) = Some e" by blast
  then obtain c k where "update_states (hs_states d) model {} = (Some e, c, k)"
    by (cases "update_states (hs_states d) model {}") auto
  with m show ?thesis by (simp add: update_elem_def get_device_def)
qed

lemma scenario_state_key: "state_key (scenario_state v) = Some K_speed"
  by (simp add: state_key_def scenario_state_def)

lemma scenario_state_value: "state_value (scenario_state v) = VStr v"
  by (simp add: scenario_state_def)

lemma scenario_sorted:
  "sorted_list_of_set {''fan-speed-4-100'', ''fan-speed-4-075'', ''fan-speed-4-050'',
                       ''fan-speed-4-025''}
     = [''fan-speed-4-025'', ''fan-speed-4-050'', ''fan-speed-4-075'', ''fan-speed-4-100'']"
  by code_simp

lemma scenario_initialize_25:
  "initialize_elem items (scenario_snapshot ''on'' ''fan-speed-4-025'')
     = Inr (scenario_built True 25, items(''fan-1'' \<mapsto> scenario_built True 25))"
  by (simp add: initialize_elem_def scenario_snapshot_def initialize_state_def
        fan_speed_feature_def get_function_from_device_def scenario_function_def
        endswith_def scenario_sorted ordered_list_item_to_percentage_def
        initial_locals_def make_fan_def scenario_built_def Let_def)

lemma scenario_initialize_75:
  "initialize_elem items (scenario_snapshot ''off'' ''fan-speed-4-075'')
     = Inr (scenario_built False 75, items(''fan-1'' \<mapsto> scenario_built False 75))"
  by (simp add: initialize_elem_def scenario_snapshot_def initialize_state_def
        fan_speed_feature_def get_function_from_device_def scenario_function_def
        endswith_def scenario_sorted ordered_list_item_to_percentage_def
        initial_locals_def make_fan_def scenario_built_def Let_def)

lemma unpadded_sorted:
  "sorted_list_of_set {''speed-4-100'', ''speed-4-75'', ''speed-4-50'', ''speed-4-25''}
     = [''speed-4-100'', ''speed-4-25'', ''speed-4-50'', ''speed-4-75'']"
  by code_simp

lemma unpadded_initialize_25:
  "initialize_elem items (unpadded_snapshot ''speed-4-25'')
     = Inr (unpadded_built 50, items(''fan-1'' \<mapsto> unpadded_built 50))"
  by (simp add: initialize_elem_def unpadded_snapshot_def initialize_state_def
        fan_speed_feature_def get_function_from_device_def unpadded_function_def
        endswith_def unpadded_sorted ordered_list_item_to_percentage_def
        initial_locals_def make_fan_def unpadded_built_def Let_def)

lemma unpadded_update_75:
  "update_elem [''fan-1'' \<mapsto> unpadded_built 50] (unpadded_snapshot ''speed-4-75'')
     = (Inr {''speed''}, [''fan-1'' \<mapsto> unpadded_built 100])"
  by (simp add: update_elem_def get_device_def unpadded_snapshot_def update_state_def
        ordered_list_item_to_percentage_def unpadded_built_def Let_def)

lemma scenario_built_update_75:
  "update_elem [''fan-1'' \<mapsto> scenario_built True 25]
       (scenario_snapshot ''on'' ''fan-speed-4-075'')
     = (Inr {''speed''}, [''fan-1'' \<mapsto> scenario_built True 75])"
  by (simp add: update_elem_def get_device_def scenario_snapshot_def update_state_def
        ordered_list_item_to_percentage_def scenario_built_def Let_def)

lemma scenario_built_deltas_75:
  "list_all (\<lambda>s. \<not> isl (state_delta (scenario_built True 25) s))
     (hs_states (scenario_snapshot ''on'' ''fan-speed-4-075''))"
  "{f. \<exists>s\<in>set (hs_states (scenario_snapshot ''on'' ''fan-speed-4-075'')).
        state_delta (scenario_built True 25) s = Inr (Some f)} = {''speed''}"
  by (auto simp: state_delta_def state_key_def scenario_snapshot_def scenario_built_def
        ordered_list_item_to_percentage_def)

lemma scenario_built_deltas_25:
  "list_all (\<lambda>s. state_delta (scenario_built True 25) s = Inr None)
     (hs_states (scenario_snapshot ''on'' ''fan-speed-4-025''))"
  by (simp add: state_delta_def state_key_def scenario_snapshot_def scenario_built_def
        ordered_list_item_to_percentage_def)

text \<open>
  C6, as amended. When the model of the device exists and every state of the snapshot
  decodes, \<^verbatim>\<open>update_elem\<close> returns exactly the names of the features for which some state
  decodes to a value other than the model's; when every tracked state decodes to the
  model's value it returns the empty set and leaves the store as it was. For the fan that
  \<^verbatim>\<open>initialize_elem\<close> builds from the zero-padded names \<^verbatim>\<open>fan-speed-4-025\<close> to
  \<^verbatim>\<open>fan-speed-4-100\<close> with the speed \<^verbatim>\<open>fan-speed-4-025\<close> (25 percent), a later snapshot
  with the speed \<^verbatim>\<open>fan-speed-4-075\<close> returns \<open>{''speed''}\<close> and the speed becomes 75.
\<close>

theorem update_elem_changed_features:
  "(items (hs_id d) = Some model \<and> (\<forall>s\<in>set (hs_states d). \<not> isl (state_delta model s))
      \<longrightarrow> (\<exists>items'. update_elem items d
              = (Inr {f. \<exists>s\<in>set (hs_states d). state_delta model s = Inr (Some f)}, items')))
   \<and> (items (hs_id d) = Some model \<and> (\<forall>s\<in>set (hs_states d). state_delta model s = Inr None)
      \<longrightarrow> update_elem items d = (Inr {}, items))
   \<and> initialize_elem Map.empty (scenario_snapshot ''on'' ''fan-speed-4-025'')
       = Inr (scenario_built True 25, [''fan-1'' \<mapsto> scenario_built True 25])
   \<and> update_elem [''fan-1'' \<mapsto> scenario_built True 25]
         (scenario_snapshot ''on'' ''fan-speed-4-075'')
       = (Inr {''speed''}, [''fan-1'' \<mapsto> scenario_built True 75])
   \<and> fan_speed (scenario_built True 75)
       = Some \<lparr>speed = 75, speeds = [''fan-speed-4-025'', ''fan-speed-4-050'',
                                       ''fan-speed-4-075'', ''fan-speed-4-100'']\<rparr>"
proof (intro conjI impI)
  assume "items (hs_id d) = Some model \<and> (\<forall>s\<in>set (hs_states d). \<not> isl (state_delta model s))"
  then show "\<exists>items'. update_elem items d
              = (Inr {f. \<exists>s\<in>set (hs_states d). state_delta model s = Inr (Some f)}, items')"
    using update_elem_returns [of items d model] by blast
next
  assume a: "items (hs_id d) = Some model \<and> (\<forall>s\<in>set (hs_states d). state_delta model s = Inr None)"
  then have ok: "\<forall>s\<in>set (hs_states d). \<not> isl (state_delta model s)" by simp
  have "{f. \<exists>s\<in>set (hs_states d). state_delta model s = Inr (Some f)} = {}"
    using a by auto
  with update_elem_returns [of items d model] a ok
  show "update_elem items d = (Inr {}, items)" by auto
next
  show "initialize_elem Map.empty (scenario_snapshot ''on'' ''fan-speed-4-025'')
       = Inr (scenario_built True 25, [''fan-1'' \<mapsto> scenario_built True 25])"
    by (simp add: scenario_initialize_25)
next
  show "update_elem [''fan-1'' \<mapsto> scenario_built True 25]
         (scenario_snapshot ''on'' ''fan-speed-4-075'')
       = (Inr {''speed''}, [''fan-1'' \<mapsto> scenario_built True 75])"
    by (rule scenario_built_update_75)
next
  show "fan_speed (scenario_built True 75)
       = Some \<lparr>speed = 75, speeds = [''fan-speed-4-025'', ''fan-speed-4-050'',
                                       ''fan-speed-4-075'', ''fan-speed-4-100'']\<rparr>"
    by (simp add: scenario_built_def)
qed

theorem update_elem_changed_features_counterexample:
  "initialize_elem Map.empty (unpadded_snapshot ''speed-4-25'')
     = Inr (unpadded_built 50, [''fan-1'' \<mapsto> unpadded_built 50])
   \<and> fan_speed (unpadded_built 50)
       = Some \<lparr>speed = 50, speeds = [''speed-4-100'', ''speed-4-25'',
                                       ''speed-4-50'', ''speed-4-75'']\<rparr>
   \<and> update_elem [''fan-1'' \<mapsto> unpadded_built 50] (unpadded_snapshot ''speed-4-75'')
       = (Inr {''speed''}, [''fan-1'' \<mapsto> unpadded_built 100])
   \<and> fan_speed (unpadded_built 100)
       = Some \<lparr>speed = 100, speeds = [''speed-4-100'', ''speed-4-25'',
                                        ''speed-4-50'', ''speed-4-75'']\<rparr>
   \<and> map_option speed (fan_speed (unpadded_built 100)) \<noteq> Some 75"
  by (simp add: unpadded_initialize_25 unpadded_update_75) (simp add: unpadded_built_def)

theorem update_elem_changed_features_witness:
  "[''fan-1'' \<mapsto> scenario_built True 25] (hs_id (scenario_snapshot ''on'' ''fan-speed-4-075''))
     = Some (scenario_built True 25)
   \<and> list_all (\<lambda>s. \<not> isl (state_delta (scenario_built True 25) s))
        (hs_states (scenario_snapshot ''on'' ''fan-speed-4-075''))
   \<and> fst (update_elem [''fan-1'' \<mapsto> scenario_built True 25]
             (scenario_snapshot ''on'' ''fan-speed-4-075'')) = Inr {''speed''}
   \<and> [''fan-1'' \<mapsto> scenario_built True 25] (hs_id (scenario_snapshot ''on'' ''fan-speed-4-025''))
     = Some (scenario_built True 25)
   \<and> list_all (\<lambda>s. state_delta (scenario_built True 25) s = Inr None)
        (hs_states (scenario_snapshot ''on'' ''fan-speed-4-025''))
   \<and> update_elem [''fan-1'' \<mapsto> scenario_built True 25]
        (scenario_snapshot ''on'' ''fan-speed-4-025'')
      = (Inr {}, [''fan-1'' \<mapsto> scenario_built True 25])"
proof -
  have h1: "[''fan-1'' \<mapsto> scenario_built True 25] (hs_id (scenario_snapshot ''on'' v))
              = Some (scenario_built True 25)" for v
    by (simp add: scenario_snapshot_def)
  have ok75: "\<forall>s\<in>set (hs_states (scenario_snapshot ''on'' ''fan-speed-4-075'')).
                \<not> isl (state_delta (scenario_built True 25) s)"
    using scenario_built_deltas_75(1) by (simp add: list_all_iff)
  have eq25: "\<forall>s\<in>set (hs_states (scenario_snapshot ''on'' ''fan-speed-4-025'')).
                state_delta (scenario_built True 25) s = Inr None"
    using scenario_built_deltas_25 by (simp add: list_all_iff)
  from update_elem_changed_features
         [of "[''fan-1'' \<mapsto> scenario_built True 25]"
             "scenario_snapshot ''on'' ''fan-speed-4-075''" "scenario_built True 25"]
       h1 ok75 scenario_built_deltas_75(2)
  have r75: "fst (update_elem [''fan-1'' \<mapsto> scenario_built True 25]
             (scenario_snapshot ''on'' ''fan-speed-4-075'')) = Inr {''speed''}"
    by auto
  from update_elem_changed_features
         [of "[''fan-1'' \<mapsto> scenario_built True 25]"
             "scenario_snapshot ''on'' ''fan-speed-4-025''" "scenario_built True 25"]
       h1 eq25
  have r25: "update_elem [''fan-1'' \<mapsto> scenario_built True 25]
        (scenario_snapshot ''on'' ''fan-speed-4-025'')
      = (Inr {}, [''fan-1'' \<mapsto> scenario_built True 25])"
    by blast
  from h1 scenario_built_deltas_75(1) scenario_built_deltas_25 r75 r25 show ?thesis
    by (intro conjI)
qed

lemma unknown_speed_delta:
  assumes "fan_speed model = Some sp" "functionClass s = ''fan-speed''"
    "state_value s \<notin> VStr ` set (speeds sp)"
  shows "state_delta model s = Inl ValueError"
proof -
  have "state_key s = Some K_speed" using assms(2) by (simp add: state_key_def)
  then show ?thesis using assms(1,3)
    by (simp add: state_delta_def ordered_list_item_to_percentage_def)
qed

text \<open>
  C10. \<^verbatim>\<open>ordered_list_item_to_percentage\<close> raises ValueError exactly when the item is not in
  the list; for an item of the list it returns, from the first index \<open>i\<close> that holds the
  item, \<open>((i + 1) * 100) div len\<close>. So \<^verbatim>\<open>update_elem\<close> raises when the snapshot has a
  fan-speed state whose value is not among the speeds of the model.
\<close>

theorem ordered_list_item_to_percentage_raises:
  "(ordered_list_item_to_percentage l x = Inl ValueError \<longleftrightarrow> x \<notin> set l)
   \<and> (x \<in> set l \<longrightarrow>
        (\<exists>i<length l. l ! i = x \<and> (\<forall>j<i. l ! j \<noteq> x)
           \<and> ordered_list_item_to_percentage l x = Inr (int (((i + 1) * 100) div length l))))
   \<and> (items (hs_id d) = Some model \<and> fan_speed model = Some sp \<and> s \<in> set (hs_states d)
        \<and> functionClass s = ''fan-speed'' \<and> state_value s \<notin> VStr ` set (speeds sp)
        \<longrightarrow> (\<exists>e. fst (update_elem items d) = Inl e))"
proof (intro conjI impI)
  show "ordered_list_item_to_percentage l x = Inl ValueError \<longleftrightarrow> x \<notin> set l"
    using index_of_None [of l x]
    by (auto simp: ordered_list_item_to_percentage_def Let_def split: option.splits)
next
  assume x: "x \<in> set l"
  then obtain i where i: "index_of l x = Some i"
    using index_of_None [of l x] by (cases "index_of l x") auto
  from index_of_Some [OF i] x i
  show "\<exists>i<length l. l ! i = x \<and> (\<forall>j<i. l ! j \<noteq> x)
          \<and> ordered_list_item_to_percentage l x = Inr (int (((i + 1) * 100) div length l))"
    by (auto simp: ordered_list_item_to_percentage_def)
next
  assume a: "items (hs_id d) = Some model \<and> fan_speed model = Some sp \<and> s \<in> set (hs_states d)
        \<and> functionClass s = ''fan-speed'' \<and> state_value s \<notin> VStr ` set (speeds sp)"
  then have "state_delta model s = Inl ValueError"
    using unknown_speed_delta [of model sp s] by simp
  with a have "\<exists>s\<in>set (hs_states d). isl (state_delta model s)" by force
  with a show "\<exists>e. fst (update_elem items d) = Inl e"
    using update_elem_raises [of items d model] by simp
qed

theorem ordered_list_item_to_percentage_raises_witness:
  "''high'' \<in> set [''low'', ''medium'', ''high'']
   \<and> ordered_list_item_to_percentage [''low'', ''medium'', ''high''] ''high'' = Inr 100
   \<and> ''turbo'' \<notin> set [''low'', ''medium'', ''high'']
   \<and> ordered_list_item_to_percentage [''low'', ''medium'', ''high''] ''turbo'' = Inl ValueError
   \<and> scenario_items (hs_id (scenario_device ''speed-4-33'')) = Some scenario_fan
   \<and> fan_speed scenario_fan = Some \<lparr>speed = 25, speeds = scenario_speeds\<rparr>
   \<and> scenario_state ''speed-4-33'' \<in> set (hs_states (scenario_device ''speed-4-33''))
   \<and> functionClass (scenario_state ''speed-4-33'') = ''fan-speed''
   \<and> state_value (scenario_state ''speed-4-33'') \<notin> VStr ` set scenario_speeds
   \<and> fst (update_elem scenario_items (scenario_device ''speed-4-33'')) = Inl ValueError"
proof -
  have v: "ordered_list_item_to_percentage [''low'', ''medium'', ''high''] ''high'' = Inr 100"
    by (simp add: ordered_list_item_to_percentage_def)
  have h1: "scenario_items (hs_id (scenario_device ''speed-4-33'')) = Some scenario_fan"
    by (simp add: scenario_items_def scenario_device_def)
  have h2: "fan_speed scenario_fan = Some \<lparr>speed = 25, speeds = scenario_speeds\<rparr>"
    by (simp add: scenario_fan_def)
  have h3: "scenario_state ''speed-4-33'' \<in> set (hs_states (scenario_device ''speed-4-33''))"
    by (simp add: scenario_device_def)
  have h4: "functionClass (scenario_state ''speed-4-33'') = ''fan-speed''"
    by (simp add: scenario_state_def)
  have h5: "state_value (scenario_state ''speed-4-33'') \<notin> VStr ` set scenario_speeds"
    by (simp add: scenario_state_def scenario_speeds_def)
  have u: "fst (update_elem scenario_items (scenario_device ''speed-4-33'')) = Inl ValueError"
    by (simp add: update_elem_def get_device_def scenario_items_def scenario_device_def
          update_state_by_key scenario_state_key scenario_state_value scenario_fan_def
          scenario_speeds_def ordered_list_item_to_percentage_def)
  from ordered_list_item_to_percentage_raises
         [of "[''low'', ''medium'', ''high'']" "''high''" scenario_items
             "scenario_device ''speed-4-33''" scenario_fan
             "\<lparr>speed = 25, speeds = scenario_speeds\<rparr>" "scenario_state ''speed-4-33''"]
       ordered_list_item_to_percentage_raises
         [of "[''low'', ''medium'', ''high'']" "''turbo''" scenario_items
             "scenario_device ''speed-4-33''" scenario_fan
             "\<lparr>speed = 25, speeds = scenario_speeds\<rparr>" "scenario_state ''speed-4-33''"]
       v h1 h2 h3 h4 h5 u
  show ?thesis by simp
qed

lemma initialize_elem_result:
  assumes "initialize_elem items d = Inr (f, items')"
  shows "items' = items(hs_id d \<mapsto> f)" and "fan_id f = hs_id d"
    and "initialize_elem other d = Inr (f, other(hs_id d \<mapsto> f))"
  using assms
  by (auto simp: initialize_elem_def make_fan_def Let_def split: sum.splits)

text \<open>
  C8. When \<^verbatim>\<open>initialize_elem\<close> is called twice with snapshots of the same id, the store
  holds the model of the second call under that id, no other key holds a model with that
  id, the keys are those after the first call, and the model is the one the second snapshot
  alone gives. \<^verbatim>\<open>initialize_elem\<close> replaces the model that was stored under the id and
  changes no other entry.
\<close>
theorem initialize_elem_overwrites:
  "(initialize_elem items d1 = Inr (f1, items1) \<and> initialize_elem items1 d2 = Inr (f2, items2)
      \<and> hs_id d1 = hs_id d2 \<and> keyed_by_id items
    \<longrightarrow> items2 (hs_id d2) = Some f2
        \<and> {k. \<exists>m. items2 k = Some m \<and> fan_id m = hs_id d2} = {hs_id d2}
        \<and> dom items2 = dom items1
        \<and> items2 = items(hs_id d2 \<mapsto> f2)
        \<and> initialize_elem Map.empty d2 = Inr (f2, [hs_id d2 \<mapsto> f2]))
   \<and> (initialize_elem items d = Inr (f, items') \<and> items (hs_id d) = Some old
    \<longrightarrow> items' (hs_id d) = Some f \<and> (\<forall>k. k \<noteq> hs_id d \<longrightarrow> items' k = items k))"
proof (intro conjI impI)
  assume a: "initialize_elem items d1 = Inr (f1, items1)
      \<and> initialize_elem items1 d2 = Inr (f2, items2) \<and> hs_id d1 = hs_id d2 \<and> keyed_by_id items"
  from a have i1: "items1 = items(hs_id d1 \<mapsto> f1)"
    using initialize_elem_result(1) [of items d1 f1 items1] by blast
  from a have i2: "items2 = items1(hs_id d2 \<mapsto> f2)"
    using initialize_elem_result(1) [of items1 d2 f2 items2] by blast
  from a have id2: "fan_id f2 = hs_id d2" using initialize_elem_result(2) by blast
  from a have same: "hs_id d1 = hs_id d2" by simp
  from a have keyed: "keyed_by_id items" by simp
  show "items2 (hs_id d2) = Some f2" using i2 by simp
  show "dom items2 = dom items1" using i1 i2 same by auto
  show "items2 = items(hs_id d2 \<mapsto> f2)" using i1 i2 same by simp
  show "initialize_elem Map.empty d2 = Inr (f2, [hs_id d2 \<mapsto> f2])"
    using a initialize_elem_result(3) [of items1 d2 f2 items2 Map.empty] by simp
  show "{k. \<exists>m. items2 k = Some m \<and> fan_id m = hs_id d2} = {hs_id d2}"
  proof
    show "{k. \<exists>m. items2 k = Some m \<and> fan_id m = hs_id d2} \<subseteq> {hs_id d2}"
    proof
      fix k assume "k \<in> {k. \<exists>m. items2 k = Some m \<and> fan_id m = hs_id d2}"
      then obtain m where m: "items2 k = Some m" "fan_id m = hs_id d2" by blast
      show "k \<in> {hs_id d2}"
      proof (cases "k = hs_id d2")
        case True
        then show ?thesis by simp
      next
        case False
        with m(1) i1 i2 same have "items k = Some m" by simp
        with keyed have "fan_id m = k" by (simp add: keyed_by_id_def)
        with m(2) False show ?thesis by simp
      qed
    qed
    show "{hs_id d2} \<subseteq> {k. \<exists>m. items2 k = Some m \<and> fan_id m = hs_id d2}"
      using i2 id2 by simp
  qed
next
  assume a: "initialize_elem items d = Inr (f, items') \<and> items (hs_id d) = Some old"
  then have "items' = items(hs_id d \<mapsto> f)"
    using initialize_elem_result(1) [of items d f items'] by blast
  then show "items' (hs_id d) = Some f" and "\<forall>k. k \<noteq> hs_id d \<longrightarrow> items' k = items k"
    by simp_all
qed

theorem initialize_elem_overwrites_witness:
  "initialize_elem Map.empty (scenario_snapshot ''on'' ''fan-speed-4-025'')
     = Inr (scenario_built True 25, [''fan-1'' \<mapsto> scenario_built True 25])
   \<and> initialize_elem [''fan-1'' \<mapsto> scenario_built True 25]
         (scenario_snapshot ''off'' ''fan-speed-4-075'')
     = Inr (scenario_built False 75, [''fan-1'' \<mapsto> scenario_built False 75])
   \<and> hs_id (scenario_snapshot ''on'' ''fan-speed-4-025'')
       = hs_id (scenario_snapshot ''off'' ''fan-speed-4-075'')
   \<and> keyed_by_id Map.empty
   \<and> [''fan-1'' \<mapsto> scenario_built False 75] ''fan-1'' = Some (scenario_built False 75)
   \<and> {k. \<exists>m. [''fan-1'' \<mapsto> scenario_built False 75] k = Some m \<and> fan_id m = ''fan-1''}
       = {''fan-1''}
   \<and> dom [''fan-1'' \<mapsto> scenario_built False 75] = dom [''fan-1'' \<mapsto> scenario_built True 25]
   \<and> fan_speed (scenario_built False 75)
       = Some \<lparr>speed = 75, speeds = [''fan-speed-4-025'', ''fan-speed-4-050'',
                                       ''fan-speed-4-075'', ''fan-speed-4-100'']\<rparr>
   \<and> fan_on (scenario_built False 75) = Some \<lparr>on = False\<rparr>"
proof -
  have h1: "initialize_elem Map.empty (scenario_snapshot ''on'' ''fan-speed-4-025'')
     = Inr (scenario_built True 25, [''fan-1'' \<mapsto> scenario_built True 25])"
    by (simp add: scenario_initialize_25)
  have h2: "initialize_elem [''fan-1'' \<mapsto> scenario_built True 25]
         (scenario_snapshot ''off'' ''fan-speed-4-075'')
     = Inr (scenario_built False 75, [''fan-1'' \<mapsto> scenario_built False 75])"
    by (simp add: scenario_initialize_75)
  have h3: "hs_id (scenario_snapshot ''on'' ''fan-speed-4-025'')
       = hs_id (scenario_snapshot ''off'' ''fan-speed-4-075'')"
    by (simp add: scenario_snapshot_def)
  have h4: "keyed_by_id Map.empty" by (simp add: keyed_by_id_def)
  have h5: "hs_id (scenario_snapshot ''off'' ''fan-speed-4-075'') = ''fan-1''"
    by (simp add: scenario_snapshot_def)
  from initialize_elem_overwrites
         [of Map.empty "scenario_snapshot ''on'' ''fan-speed-4-025''" "scenario_built True 25"
             "[''fan-1'' \<mapsto> scenario_built True 25]"
             "scenario_snapshot ''off'' ''fan-speed-4-075''" "scenario_built False 75"
             "[''fan-1'' \<mapsto> scenario_built False 75]"]
       h1 h2 h3 h4 h5
  show ?thesis by (simp add: scenario_built_def)
qed

section \<open>Properties of the reader\<close>

lemma tracked_devices_fields [simp]:
  "tracked_device_classes (tracked_devices b) = tracked_device_classes b"
  "controller_item_ids (tracked_devices b) = controller_item_ids b"
  by (simp_all add: tracked_devices_def)

lemma tracked_devices_nonempty:
  "known_devs b \<noteq> {} \<Longrightarrow> tracked_devices b = b"
  by (simp add: tracked_devices_def)

lemma tracked_devices_idem [simp]: "tracked_devices (tracked_devices b) = tracked_devices b"
  by (simp add: tracked_devices_def)

lemma classify_data_spec:
  "classify_data data b queue processed_ids skipped_ids = (b', queue', processed', skipped')
   \<Longrightarrow> queue' = queue @ expected_events (known_devs (tracked_devices b))
                         (tracked_device_classes b) data
     \<and> set (processed' @ skipped') = set (processed_ids @ skipped_ids) \<union> hs_id ` set data
     \<and> tracked_device_classes b' = tracked_device_classes b
     \<and> controller_item_ids b' = controller_item_ids b
     \<and> known_devs (tracked_devices b') = known_devs (tracked_devices b) \<union> hs_id ` set data"
proof (induction data arbitrary: b queue processed_ids skipped_ids)
  case Nil
  then show ?case by simp
next
  case (Cons d ds)
  define b1 where "b1 = tracked_devices b"
  define b2 where "b2 = (if hs_id d \<notin> known_devs b1 then add_device b1 (hs_id d) else b1)"
  have k2: "known_devs b2 = insert (hs_id d) (known_devs b1)"
    by (auto simp: b2_def add_device_def)
  then have t2: "tracked_devices b2 = b2" by (simp add: tracked_devices_nonempty)
  have c2: "tracked_device_classes b2 = tracked_device_classes b"
    "controller_item_ids b2 = controller_item_ids b"
    by (simp_all add: b2_def b1_def add_device_def)
  define ev where
    "ev = \<lparr>ev_type = (if hs_id d \<notin> known_devs b1 then RESOURCE_ADDED else RESOURCE_UPDATED),
           ev_device_id = hs_id d, ev_device = Some d\<rparr>"
  have step: "classify_data (d # ds) b queue processed_ids skipped_ids =
      (if hs_device_class d \<notin> tracked_device_classes b
       then classify_data ds b2 queue processed_ids (skipped_ids @ [hs_id d])
       else classify_data ds b2 (queue @ [ev]) (processed_ids @ [hs_id d]) skipped_ids)"
    unfolding classify_data.simps Let_def b1_def [symmetric] b2_def [symmetric] ev_def [symmetric]
    by (simp add: c2)
  have ev_eq: "hs_device_class d \<in> tracked_device_classes b \<Longrightarrow>
      expected_events (known_devs b1) (tracked_device_classes b) (d # ds)
        = ev # expected_events (known_devs b2) (tracked_device_classes b) ds"
    by (auto simp: ev_def k2)
  have ev_skip: "hs_device_class d \<notin> tracked_device_classes b \<Longrightarrow>
      expected_events (known_devs b1) (tracked_device_classes b) (d # ds)
        = expected_events (known_devs b2) (tracked_device_classes b) ds"
    by (simp add: k2)
  show ?case
  proof (cases "hs_device_class d \<in> tracked_device_classes b")
    case True
    with Cons.prems step have
      "classify_data ds b2 (queue @ [ev]) (processed_ids @ [hs_id d]) skipped_ids
         = (b', queue', processed', skipped')"
      by simp
    from Cons.IH [OF this] ev_eq [OF True] show ?thesis
      unfolding t2 c2 b1_def [symmetric] by (auto simp: k2)
  next
    case False
    with Cons.prems step have
      "classify_data ds b2 queue processed_ids (skipped_ids @ [hs_id d])
         = (b', queue', processed', skipped')"
      by simp
    from Cons.IH [OF this] ev_skip [OF False] show ?thesis
      unfolding t2 c2 b1_def [symmetric] by (auto simp: k2)
  qed
qed

lemma find_missing_spec:
  "find_missing iter_order seen_ids b queue = (err, b', queue') \<Longrightarrow>
   set iter_order \<subseteq> known_devs b \<Longrightarrow>
   \<exists>dels. queue' = queue @ dels
     \<and> list_all (\<lambda>e. ev_type e = RESOURCE_DELETED \<and> ev_device e = None
                      \<and> ev_device_id e \<in> known_devs b \<and> ev_device_id e \<notin> set seen_ids) dels
     \<and> distinct (map ev_device_id dels)
     \<and> known_devs b' = known_devs b - set (map ev_device_id dels)
     \<and> tracked_device_classes b' = tracked_device_classes b
     \<and> controller_item_ids b' = controller_item_ids b
     \<and> (err = None \<longleftrightarrow> dels = [])"
proof (induction iter_order)
  case Nil
  then show ?case by auto
next
  case (Cons x xs)
  show ?case
  proof (cases "x \<in> set seen_ids")
    case True
    with Cons show ?thesis by simp
  next
    case False
    from Cons.prems(2) have "x \<in> known_devs b" by simp
    with False Cons.prems(1) have
      "err = Some RuntimeError" "b' = b\<lparr>known_devs := known_devs b - {x}\<rparr>"
      "queue' = queue @ [\<lparr>ev_type = RESOURCE_DELETED, ev_device_id = x, ev_device = None\<rparr>]"
      by (auto simp: remove_device_def Let_def)
    with False \<open>x \<in> known_devs b\<close> show ?thesis
      by (intro exI [of _ "[\<lparr>ev_type = RESOURCE_DELETED, ev_device_id = x, ev_device = None\<rparr>]"])
         simp
  qed
qed

lemma find_missing_keeps_seen:
  "find_missing iter_order seen_ids b queue = (err, b', queue') \<Longrightarrow>
   \<exists>dels. queue' = queue @ dels
     \<and> list_all (\<lambda>e. ev_type e = RESOURCE_DELETED \<and> ev_device e = None
                      \<and> ev_device_id e \<notin> set seen_ids) dels
     \<and> known_devs b \<inter> set seen_ids \<subseteq> known_devs b'"
proof (induction iter_order)
  case Nil
  then show ?case by auto
next
  case (Cons x xs)
  show ?case
  proof (cases "x \<in> set seen_ids")
    case True
    with Cons show ?thesis by simp
  next
    case False
    with Cons.prems have
      "queue' = queue @ [\<lparr>ev_type = RESOURCE_DELETED, ev_device_id = x, ev_device = None\<rparr>]"
      "known_devs b \<inter> set seen_ids \<subseteq> known_devs b'"
      by (auto simp: remove_device_def Let_def split: if_splits)
    with False show ?thesis
      by (intro exI [of _ "[\<lparr>ev_type = RESOURCE_DELETED, ev_device_id = x, ev_device = None\<rparr>]"])
         simp
  qed
qed

lemma expected_events_devices:
  "map ev_device (expected_events R C data)
     = map Some (filter (\<lambda>d. hs_device_class d \<in> C) data)"
  by (induction data arbitrary: R) auto

lemma expected_events_member:
  "e \<in> set (expected_events R C data) \<Longrightarrow>
   \<exists>d. d \<in> set data \<and> hs_device_class d \<in> C \<and> ev_device e = Some d
       \<and> ev_device_id e = hs_id d \<and> ev_type e \<noteq> RESOURCE_DELETED"
  by (induction data arbitrary: R) (auto split: if_splits)

lemma expected_events_no_add_known:
  "i \<in> R \<Longrightarrow>
   filter (\<lambda>e. ev_type e = RESOURCE_ADDED \<and> ev_device_id e = i) (expected_events R C data) = []"
  by (induction data arbitrary: R) auto

lemma expected_events_add_once:
  "length (filter (\<lambda>e. ev_type e = RESOURCE_ADDED \<and> ev_device_id e = i)
             (expected_events R C data)) \<le> 1"
proof (induction data arbitrary: R)
  case Nil
  then show ?case by simp
next
  case (Cons d ds)
  show ?case
  proof (cases "hs_id d = i")
    case True
    then have "filter (\<lambda>e. ev_type e = RESOURCE_ADDED \<and> ev_device_id e = i)
                 (expected_events (insert (hs_id d) R) C ds) = []"
      by (simp add: expected_events_no_add_known)
    then show ?thesis by simp
  next
    case False
    with Cons.IH [of "insert (hs_id d) R"] show ?thesis by simp
  qed
qed

lemma event_reader_pass_fetched:
  assumes "classify_data data (es_bridge st) (es_event_queue st) [] [] = (b, q, p, s)"
    and "find_missing iter_order (p @ s) (tracked_devices b) q = (err, b', q')"
  shows "fst (event_reader_pass iter_order (Fetched data) st) = err"
    and "es_bridge (snd (event_reader_pass iter_order (Fetched data) st)) = b'"
    and "es_event_queue (snd (event_reader_pass iter_order (Fetched data) st)) = q'"
    and "es_calls (snd (event_reader_pass iter_order (Fetched data) st)) = es_calls st"
    and "es_subscribers (snd (event_reader_pass iter_order (Fetched data) st))
           = es_subscribers st"
  using assms by (cases err; simp add: event_reader_pass_def)+

text \<open>
  C1. When the fetch of a poll fails, the pass queues nothing and leaves the bridge, and so
  the registry, as it was, whatever the registry holds; a client error or a timeout does
  not leave the reader.
\<close>

theorem transient_failure_keeps_registry:
  "((\<forall>data. fetched \<noteq> Fetched data) \<longrightarrow>
      es_event_queue (snd (event_reader_pass iter_order fetched st)) = es_event_queue st
      \<and> es_bridge (snd (event_reader_pass iter_order fetched st)) = es_bridge st
      \<and> registry (snd (event_reader_pass iter_order fetched st)) = registry st)
   \<and> (fetched = FetchClientError \<or> fetched = FetchTimeoutError \<longrightarrow>
        fst (event_reader_pass iter_order fetched st) = None)"
  by (cases fetched) (simp_all add: event_reader_pass_def registry_def)

theorem transient_failure_keeps_registry_witness:
  "FetchClientError \<noteq> Fetched []
   \<and> es_event_queue (snd (event_reader_pass [''x''] FetchClientError (scenario_stream {''x''} [])))
       = []
   \<and> known_devs (es_bridge (snd (event_reader_pass [''x''] FetchClientError
                                    (scenario_stream {''x''} [])))) = {''x''}
   \<and> registry (snd (event_reader_pass [''x''] FetchClientError (scenario_stream {''x''} [])))
       = {''x''}
   \<and> fst (event_reader_pass [''x''] FetchClientError (scenario_stream {''x''} [])) = None"
  using transient_failure_keeps_registry
          [of FetchClientError "[''x'']" "scenario_stream {''x''} []"]
  by (simp add: scenario_stream_def registry_def tracked_devices_def)

lemma event_reader_pass_spec:
  assumes ord: "set iter_order \<subseteq> registry st \<union> hs_id ` set data"
  shows "\<exists>dels. es_event_queue (snd (event_reader_pass iter_order (Fetched data) st))
           = es_event_queue st
             @ expected_events (registry st) (tracked_device_classes (es_bridge st)) data
             @ dels
         \<and> list_all (\<lambda>e. ev_type e = RESOURCE_DELETED \<and> ev_device e = None
                         \<and> ev_device_id e \<in> registry st
                         \<and> ev_device_id e \<notin> hs_id ` set data) dels
         \<and> distinct (map ev_device_id dels)
         \<and> known_devs (es_bridge (snd (event_reader_pass iter_order (Fetched data) st)))
             = (registry st \<union> hs_id ` set data) - set (map ev_device_id dels)
         \<and> (fst (event_reader_pass iter_order (Fetched data) st) = None \<longleftrightarrow> dels = [])"
proof -
  obtain b q p s where c: "classify_data data (es_bridge st) (es_event_queue st) [] [] = (b, q, p, s)"
    by (metis prod_cases4)
  from classify_data_spec [OF c] have
    q: "q = es_event_queue st
            @ expected_events (registry st) (tracked_device_classes (es_bridge st)) data"
    and seen: "set (p @ s) = hs_id ` set data"
    and k: "known_devs (tracked_devices b) = registry st \<union> hs_id ` set data"
    by (simp_all add: registry_def)
  obtain err b' q' where f: "find_missing iter_order (p @ s) (tracked_devices b) q = (err, b', q')"
    by (metis prod_cases3)
  from ord k have "set iter_order \<subseteq> known_devs (tracked_devices b)" by simp
  from find_missing_spec [OF f this] obtain dels where
    d: "q' = q @ dels"
       "list_all (\<lambda>e. ev_type e = RESOURCE_DELETED \<and> ev_device e = None
                      \<and> ev_device_id e \<in> known_devs (tracked_devices b)
                      \<and> ev_device_id e \<notin> set (p @ s)) dels"
       "distinct (map ev_device_id dels)"
       "known_devs b' = known_devs (tracked_devices b) - set (map ev_device_id dels)"
       "err = None \<longleftrightarrow> dels = []"
    by blast
  have "list_all (\<lambda>e. ev_type e = RESOURCE_DELETED \<and> ev_device e = None
                         \<and> ev_device_id e \<in> registry st
                         \<and> ev_device_id e \<notin> hs_id ` set data) dels"
    using d(2) unfolding list_all_iff k seen by auto
  with d q k event_reader_pass_fetched [OF c f] show ?thesis
    by (intro exI [of _ dels]) simp
qed

text \<open>
  C2, as amended. In a poll that fetched the snapshots \<open>data\<close>, with the registry \<open>R\<close>
  before it: every snapshot of a tracked class gets exactly one event, in the order of the
  snapshots, \<^verbatim>\<open>add\<close> when its id is neither in \<open>R\<close> nor earlier in \<open>data\<close> and \<^verbatim>\<open>update\<close>
  otherwise, and a snapshot of another class gets none; so an id that occurs twice gets an
  event for each occurrence, no id gets more than one \<^verbatim>\<open>add\<close>, and an id of \<open>R\<close> gets
  none. No id of \<open>data\<close> gets a \<^verbatim>\<open>delete\<close>, and every id of \<open>data\<close> is in the registry
  after the poll.
\<close>

theorem poll_classification:
  "\<exists>dels. es_event_queue (snd (event_reader_pass iter_order (Fetched data) st))
           = es_event_queue st
             @ expected_events (registry st) (tracked_device_classes (es_bridge st)) data
             @ dels
         \<and> map ev_device
               (expected_events (registry st) (tracked_device_classes (es_bridge st)) data)
             = map Some (filter (\<lambda>d. hs_device_class d \<in> tracked_device_classes (es_bridge st))
                           data)
         \<and> length (filter (\<lambda>e. ev_type e = RESOURCE_ADDED \<and> ev_device_id e = i)
               (expected_events (registry st) (tracked_device_classes (es_bridge st)) data))
             \<le> (if i \<in> registry st then 0 else 1)
         \<and> list_all (\<lambda>e. ev_type e = RESOURCE_DELETED \<and> ev_device e = None
                         \<and> ev_device_id e \<notin> hs_id ` set data) dels
         \<and> hs_id ` set data
             \<subseteq> known_devs (es_bridge (snd (event_reader_pass iter_order (Fetched data) st)))"
proof -
  obtain b q p s where c: "classify_data data (es_bridge st) (es_event_queue st) [] [] = (b, q, p, s)"
    by (metis prod_cases4)
  from classify_data_spec [OF c] have
    q: "q = es_event_queue st
            @ expected_events (registry st) (tracked_device_classes (es_bridge st)) data"
    and seen: "set (p @ s) = hs_id ` set data"
    and k: "known_devs (tracked_devices b) = registry st \<union> hs_id ` set data"
    by (simp_all add: registry_def)
  obtain err b' q' where f: "find_missing iter_order (p @ s) (tracked_devices b) q = (err, b', q')"
    by (metis prod_cases3)
  from find_missing_keeps_seen [OF f] obtain dels where
    d: "q' = q @ dels"
       "list_all (\<lambda>e. ev_type e = RESOURCE_DELETED \<and> ev_device e = None
                      \<and> ev_device_id e \<notin> set (p @ s)) dels"
       "known_devs (tracked_devices b) \<inter> set (p @ s) \<subseteq> known_devs b'"
    by blast
  have kept: "hs_id ` set data \<subseteq> known_devs b'"
    using d(3) k seen by auto
  have dl: "list_all (\<lambda>e. ev_type e = RESOURCE_DELETED \<and> ev_device e = None
                         \<and> ev_device_id e \<notin> hs_id ` set data) dels"
    using d(2) unfolding seen .
  have once: "length (filter (\<lambda>e. ev_type e = RESOURCE_ADDED \<and> ev_device_id e = i)
               (expected_events (registry st) (tracked_device_classes (es_bridge st)) data))
             \<le> (if i \<in> registry st then 0 else 1)"
    using expected_events_add_once [of i "registry st" _ data]
          expected_events_no_add_known [of i "registry st" _ data]
    by simp
  from kept dl once q d(1) event_reader_pass_fetched [OF c f] expected_events_devices
  show ?thesis
    by (intro exI [of _ dels]) simp
qed

lemma scenario_registry [simp]: "registry (scenario_stream known subs) = known"
  by (simp add: registry_def scenario_stream_def tracked_devices_def)

lemma scenario_stream_fields [simp]:
  "known_devs (es_bridge (scenario_stream known subs)) = known"
  "tracked_device_classes (es_bridge (scenario_stream known subs)) = {''light'', ''fan''}"
  "es_event_queue (scenario_stream known subs) = []"
  "es_subscribers (scenario_stream known subs) = subs"
  "es_calls (scenario_stream known subs) = []"
  by (simp_all add: scenario_stream_def)

lemma snapshot_of_fields [simp]:
  "hs_id (snapshot_of i c) = i"
  "hs_device_class (snapshot_of i c) = c"
  by (simp_all add: snapshot_of_def)

lemma scenario_pass_duplicate:
  "event_reader_pass [''a''] (Fetched [snapshot_of ''a'' ''light'', snapshot_of ''a'' ''light''])
     (scenario_stream {} [])
   = (None,
      (scenario_stream {''a''} [])
        \<lparr>es_event_queue :=
           [\<lparr>ev_type = RESOURCE_ADDED, ev_device_id = ''a'',
              ev_device = Some (snapshot_of ''a'' ''light'')\<rparr>,
            \<lparr>ev_type = RESOURCE_UPDATED, ev_device_id = ''a'',
              ev_device = Some (snapshot_of ''a'' ''light'')\<rparr>],
         es_status := ST_DISCONNECTED\<rparr>)"
  by (simp add: event_reader_pass_def scenario_stream_def tracked_devices_def add_device_def
        snapshot_of_def Let_def)

theorem poll_classification_counterexample:
  "hs_id (snapshot_of ''a'' ''light'') = ''a''
   \<and> ''a'' \<notin> registry (scenario_stream {} [])
   \<and> hs_device_class (snapshot_of ''a'' ''light'')
        \<in> tracked_device_classes (es_bridge (scenario_stream {} []))
   \<and> es_event_queue (snd (event_reader_pass [''a'']
        (Fetched [snapshot_of ''a'' ''light'', snapshot_of ''a'' ''light''])
        (scenario_stream {} [])))
      = [\<lparr>ev_type = RESOURCE_ADDED, ev_device_id = ''a'',
           ev_device = Some (snapshot_of ''a'' ''light'')\<rparr>,
         \<lparr>ev_type = RESOURCE_UPDATED, ev_device_id = ''a'',
           ev_device = Some (snapshot_of ''a'' ''light'')\<rparr>]
   \<and> length (filter (\<lambda>e. ev_device_id e = ''a'')
        (es_event_queue (snd (event_reader_pass [''a'']
           (Fetched [snapshot_of ''a'' ''light'', snapshot_of ''a'' ''light''])
           (scenario_stream {} []))))) \<noteq> 1"
  by (simp add: scenario_pass_duplicate)

lemma scenario_pass_mixed:
  "event_reader_pass [''x'', ''a'', ''t'']
     (Fetched [snapshot_of ''a'' ''light'', snapshot_of ''t'' ''thermostat'',
               snapshot_of ''a'' ''light''])
     (scenario_stream {''x''} [])
   = (Some RuntimeError,
      (scenario_stream {''a'', ''t''} [])
        \<lparr>es_event_queue :=
           [\<lparr>ev_type = RESOURCE_ADDED, ev_device_id = ''a'',
              ev_device = Some (snapshot_of ''a'' ''light'')\<rparr>,
            \<lparr>ev_type = RESOURCE_UPDATED, ev_device_id = ''a'',
              ev_device = Some (snapshot_of ''a'' ''light'')\<rparr>,
            \<lparr>ev_type = RESOURCE_DELETED, ev_device_id = ''x'', ev_device = None\<rparr>]\<rparr>)"
  by (auto simp: event_reader_pass_def scenario_stream_def tracked_devices_def add_device_def
        remove_device_def snapshot_of_def Let_def)

theorem poll_classification_witness:
  "es_event_queue (snd (event_reader_pass [''x'', ''a'', ''t'']
        (Fetched [snapshot_of ''a'' ''light'', snapshot_of ''t'' ''thermostat'',
                  snapshot_of ''a'' ''light''])
        (scenario_stream {''x''} [])))
      = [\<lparr>ev_type = RESOURCE_ADDED, ev_device_id = ''a'',
           ev_device = Some (snapshot_of ''a'' ''light'')\<rparr>,
         \<lparr>ev_type = RESOURCE_UPDATED, ev_device_id = ''a'',
           ev_device = Some (snapshot_of ''a'' ''light'')\<rparr>,
         \<lparr>ev_type = RESOURCE_DELETED, ev_device_id = ''x'', ev_device = None\<rparr>]
   \<and> expected_events (registry (scenario_stream {''x''} []))
        (tracked_device_classes (es_bridge (scenario_stream {''x''} [])))
        [snapshot_of ''a'' ''light'', snapshot_of ''t'' ''thermostat'', snapshot_of ''a'' ''light'']
      = [\<lparr>ev_type = RESOURCE_ADDED, ev_device_id = ''a'',
           ev_device = Some (snapshot_of ''a'' ''light'')\<rparr>,
         \<lparr>ev_type = RESOURCE_UPDATED, ev_device_id = ''a'',
           ev_device = Some (snapshot_of ''a'' ''light'')\<rparr>]
   \<and> known_devs (es_bridge (snd (event_reader_pass [''x'', ''a'', ''t'']
        (Fetched [snapshot_of ''a'' ''light'', snapshot_of ''t'' ''thermostat'',
                  snapshot_of ''a'' ''light''])
        (scenario_stream {''x''} [])))) = {''a'', ''t''}"
proof -
  have v1: "es_event_queue (snd (event_reader_pass [''x'', ''a'', ''t'']
        (Fetched [snapshot_of ''a'' ''light'', snapshot_of ''t'' ''thermostat'',
                  snapshot_of ''a'' ''light''])
        (scenario_stream {''x''} [])))
      = [\<lparr>ev_type = RESOURCE_ADDED, ev_device_id = ''a'',
           ev_device = Some (snapshot_of ''a'' ''light'')\<rparr>,
         \<lparr>ev_type = RESOURCE_UPDATED, ev_device_id = ''a'',
           ev_device = Some (snapshot_of ''a'' ''light'')\<rparr>,
         \<lparr>ev_type = RESOURCE_DELETED, ev_device_id = ''x'', ev_device = None\<rparr>]"
    by (simp add: scenario_pass_mixed)
  have v2: "known_devs (es_bridge (snd (event_reader_pass [''x'', ''a'', ''t'']
        (Fetched [snapshot_of ''a'' ''light'', snapshot_of ''t'' ''thermostat'',
                  snapshot_of ''a'' ''light''])
        (scenario_stream {''x''} [])))) = {''a'', ''t''}"
    by (simp add: scenario_pass_mixed)
  have v3: "expected_events (registry (scenario_stream {''x''} []))
        (tracked_device_classes (es_bridge (scenario_stream {''x''} [])))
        [snapshot_of ''a'' ''light'', snapshot_of ''t'' ''thermostat'', snapshot_of ''a'' ''light'']
      = [\<lparr>ev_type = RESOURCE_ADDED, ev_device_id = ''a'',
           ev_device = Some (snapshot_of ''a'' ''light'')\<rparr>,
         \<lparr>ev_type = RESOURCE_UPDATED, ev_device_id = ''a'',
           ev_device = Some (snapshot_of ''a'' ''light'')\<rparr>]"
    by simp
  from poll_classification
         [where iter_order = "[''x'', ''a'', ''t'']"
            and data = "[snapshot_of ''a'' ''light'', snapshot_of ''t'' ''thermostat'',
                         snapshot_of ''a'' ''light'']"
            and st = "scenario_stream {''x''} []" and i = "''a''"]
       v1 v2 v3
  show ?thesis by (intro conjI)
qed

text \<open>
  C5, as amended. A fetched device whose class is not tracked gets no event in the poll,
  neither for the snapshot nor a \<^verbatim>\<open>delete\<close> for its id, and its id is in the registry
  after the poll, whether it was there before or not: the reader adds an unknown id before
  it looks at the class, and keeps the id among the skipped ones.
\<close>

theorem untracked_class_skipped:
  assumes "d \<in> set data" and "hs_device_class d \<notin> tracked_device_classes (es_bridge st)"
  shows "hs_id d \<in> known_devs (es_bridge (snd (event_reader_pass iter_order (Fetched data) st)))
    \<and> (\<exists>new. es_event_queue (snd (event_reader_pass iter_order (Fetched data) st))
                = es_event_queue st @ new
             \<and> list_all (\<lambda>e. ev_device e \<noteq> Some d
                             \<and> \<not> (ev_type e = RESOURCE_DELETED \<and> ev_device_id e = hs_id d)) new)"
proof -
  obtain b q p s where c: "classify_data data (es_bridge st) (es_event_queue st) [] [] = (b, q, p, s)"
    by (metis prod_cases4)
  from classify_data_spec [OF c] have
    q: "q = es_event_queue st
            @ expected_events (registry st) (tracked_device_classes (es_bridge st)) data"
    and seen: "set (p @ s) = hs_id ` set data"
    and k: "known_devs (tracked_devices b) = registry st \<union> hs_id ` set data"
    by (simp_all add: registry_def)
  obtain err b' q' where f: "find_missing iter_order (p @ s) (tracked_devices b) q = (err, b', q')"
    by (metis prod_cases3)
  from find_missing_keeps_seen [OF f] obtain dels where
    d: "q' = q @ dels"
       "list_all (\<lambda>e. ev_type e = RESOURCE_DELETED \<and> ev_device e = None
                      \<and> ev_device_id e \<notin> set (p @ s)) dels"
       "known_devs (tracked_devices b) \<inter> set (p @ s) \<subseteq> known_devs b'"
    by blast
  have in_reg: "hs_id d \<in> known_devs b'"
    using d(3) k seen assms(1) by auto
  have ev: "list_all (\<lambda>e. ev_device e \<noteq> Some d
              \<and> \<not> (ev_type e = RESOURCE_DELETED \<and> ev_device_id e = hs_id d))
            (expected_events (registry st) (tracked_device_classes (es_bridge st)) data)"
    unfolding list_all_iff using expected_events_member assms(2) by fastforce
  have dl: "list_all (\<lambda>e. ev_device e \<noteq> Some d
              \<and> \<not> (ev_type e = RESOURCE_DELETED \<and> ev_device_id e = hs_id d)) dels"
    using d(2) seen assms(1) unfolding list_all_iff by auto
  from in_reg ev dl q d(1) event_reader_pass_fetched [OF c f] show ?thesis
    by (intro conjI exI [of _ "expected_events (registry st)
          (tracked_device_classes (es_bridge st)) data @ dels"]) simp_all
qed

lemma scenario_pass_thermostat:
  "event_reader_pass [''t''] (Fetched [snapshot_of ''t'' ''thermostat''])
     (scenario_stream {} [])
   = (None, (scenario_stream {''t''} [])\<lparr>es_status := ST_DISCONNECTED\<rparr>)"
  by (simp add: event_reader_pass_def scenario_stream_def tracked_devices_def add_device_def
        snapshot_of_def Let_def)

theorem untracked_class_skipped_counterexample:
  "hs_id (snapshot_of ''t'' ''thermostat'') \<notin> registry (scenario_stream {} [])
   \<and> hs_device_class (snapshot_of ''t'' ''thermostat'')
        \<notin> tracked_device_classes (es_bridge (scenario_stream {} []))
   \<and> hs_id (snapshot_of ''t'' ''thermostat'')
        \<in> known_devs (es_bridge (snd (event_reader_pass [''t'']
              (Fetched [snapshot_of ''t'' ''thermostat'']) (scenario_stream {} []))))"
  by (simp add: scenario_pass_thermostat)

theorem untracked_class_skipped_witness:
  "snapshot_of ''t'' ''thermostat'' \<in> set [snapshot_of ''t'' ''thermostat'']
   \<and> hs_device_class (snapshot_of ''t'' ''thermostat'')
        \<notin> tracked_device_classes (es_bridge (scenario_stream {} []))
   \<and> known_devs (es_bridge (snd (event_reader_pass [''t'']
        (Fetched [snapshot_of ''t'' ''thermostat'']) (scenario_stream {} [])))) = {''t''}
   \<and> es_event_queue (snd (event_reader_pass [''t'']
        (Fetched [snapshot_of ''t'' ''thermostat'']) (scenario_stream {} []))) = []"
proof -
  have h1: "snapshot_of ''t'' ''thermostat'' \<in> set [snapshot_of ''t'' ''thermostat'']" by simp
  have h2: "hs_device_class (snapshot_of ''t'' ''thermostat'')
        \<notin> tracked_device_classes (es_bridge (scenario_stream {} []))"
    by simp
  have v1: "known_devs (es_bridge (snd (event_reader_pass [''t'']
        (Fetched [snapshot_of ''t'' ''thermostat'']) (scenario_stream {} [])))) = {''t''}"
    by (simp add: scenario_pass_thermostat)
  have v2: "es_event_queue (snd (event_reader_pass [''t'']
        (Fetched [snapshot_of ''t'' ''thermostat'']) (scenario_stream {} []))) = []"
    by (simp add: scenario_pass_thermostat)
  from untracked_class_skipped [OF h1 h2, of "[''t'']"] h1 h2 v1 v2 show ?thesis
    by (intro conjI)
qed

section \<open>Properties of the subscriptions\<close>

lemma resource_filtered_iff:
  "resource_filtered resource_filter data = category_excluded resource_filter data"
  by (simp add: resource_filtered_def category_excluded_def split: option.splits)

text \<open>
  Which callbacks \<^verbatim>\<open>emit\<close> calls when no plain callback of a matching subscription raises:
  those of the matching subscriptions, once each, in their order. A callback that the
  filters leave out is not called, whether it would raise or not.
\<close>

lemma emit_matching:
  "list_all (returns_normally event_type data)
     (filter (subscription_matches event_type data) subs) \<Longrightarrow>
   emit subs event_type data calls
     = (None, calls @ map (call_of event_type data)
                        (filter (subscription_matches event_type data) subs))"
proof (induction subs arbitrary: calls)
  case Nil
  then show ?case by simp
next
  case (Cons sub rest)
  obtain cb ef rf where sub: "sub = (cb, ef, rf)" by (cases sub)
  have te: "(ef \<noteq> None \<and> event_type \<notin> set (the ef)) = type_excluded ef event_type"
    by (cases ef) (simp_all add: type_excluded_def)
  show ?case
  proof (cases "type_excluded ef event_type \<or> category_excluded rf data")
    case True
    then have nm: "\<not> subscription_matches event_type data sub"
      by (auto simp: subscription_matches_def sub)
    with Cons.prems have rest: "list_all (returns_normally event_type data)
        (filter (subscription_matches event_type data) rest)" by simp
    from True have "emit (sub # rest) event_type data calls
        = emit rest event_type data calls"
      unfolding sub emit.simps te resource_filtered_iff by auto
    with nm show ?thesis using Cons.IH [OF rest] by simp
  next
    case False
    then have m: "subscription_matches event_type data sub"
      by (simp add: subscription_matches_def sub)
    with Cons.prems have rest: "list_all (returns_normally event_type data)
        (filter (subscription_matches event_type data) rest)"
      and "returns_normally event_type data sub" by simp_all
    then have ok: "cb_is_coroutine cb \<or> \<not> cb_raises cb event_type data"
      by (simp add: sub returns_normally_def)
    from False ok have "emit (sub # rest) event_type data calls
        = emit rest event_type data (calls @ [(cb_name cb, event_type, data)])"
      unfolding sub emit.simps te resource_filtered_iff by auto
    with m show ?thesis using Cons.IH [OF rest] by (simp add: call_of_def sub)
  qed
qed

lemma subscription_matches_iff:
  "subscription_matches event_type data (cb, event_filter, resource_filter) \<longleftrightarrow>
     (event_filter = None \<or> event_type \<in> set (the event_filter))
     \<and> (resource_filter = None \<or> data = None \<or> ev_device (the data) = None
          \<or> hs_device_class (the (ev_device (the data))) \<in> set (the resource_filter))"
  by (auto simp: subscription_matches_def type_excluded_def category_excluded_def
           split: option.splits)

lemma scenario_light_only:
  "subscribe [] (listener ''l'' False) NoFilter (Some [''light''])
     = [(listener ''l'' False, None, Some [''light''])]"
  by (simp add: subscribe_def)

lemma listener_fields [simp]:
  "cb_name (listener n r) = n"
  "cb_is_coroutine (listener n r) = False"
  "cb_raises (listener n r) event_type data = r"
  by (simp_all add: listener_def)

lemma resource_event_fields [simp]:
  "ev_type (resource_event t i c) = t"
  "ev_device_id (resource_event t i c) = i"
  "ev_device (resource_event t i c) = Some (snapshot_of i c)"
  by (simp_all add: resource_event_def)

lemma deleted_event_fields [simp]:
  "ev_type (deleted_event i) = RESOURCE_DELETED"
  "ev_device_id (deleted_event i) = i"
  "ev_device (deleted_event i) = None"
  by (simp_all add: deleted_event_def)

text \<open>
  The subscriber for lights only: an update of a fan does not reach it, an update of a light
  and a \<^verbatim>\<open>delete\<close>, which carries no device, do; a subscriber for \<^verbatim>\<open>add\<close> only is not called
  for an update.
\<close>

lemma emit_light_only:
  "emit (subscribe [] (listener ''l'' False) NoFilter (Some [''light'']))
        RESOURCE_UPDATED (Some (resource_event RESOURCE_UPDATED ''f'' ''fan'')) []
      = (None, [])"
  "emit (subscribe [] (listener ''l'' False) NoFilter (Some [''light'']))
        RESOURCE_UPDATED (Some (resource_event RESOURCE_UPDATED ''b'' ''light'')) []
      = (None, [(''l'', RESOURCE_UPDATED, Some (resource_event RESOURCE_UPDATED ''b'' ''light''))])"
  "emit (subscribe [] (listener ''l'' False) NoFilter (Some [''light'']))
        RESOURCE_DELETED (Some (deleted_event ''x'')) []
      = (None, [(''l'', RESOURCE_DELETED, Some (deleted_event ''x''))])"
  "emit (subscribe [] (listener ''l'' False) (OneType RESOURCE_ADDED) None)
        RESOURCE_UPDATED (Some (resource_event RESOURCE_UPDATED ''b'' ''light'')) []
      = (None, [])"
  by (simp_all add: subscribe_def resource_filtered_def)

section \<open>What the code does where it departs from the specification\<close>

text \<open>
  C7. Two plain callbacks are subscribed, the first with no filter, the second for lights
  only, and an update of a light is emitted. Both subscriptions match. When the first
  callback returns, both are called once, in order; when it raises, the exception leaves
  \<^verbatim>\<open>emit\<close> and the second, matching callback is not called. A callback that raises but is
  left out by its filter does no harm.
\<close>

theorem matching_callback_not_called_after_raise:
  "subscription_matches RESOURCE_UPDATED
       (Some (resource_event RESOURCE_UPDATED ''b'' ''light''))
       (listener ''second'' False, None, Some [''light''])
   \<and> emit [(listener ''first'' False, None, None),
            (listener ''second'' False, None, Some [''light''])]
        RESOURCE_UPDATED (Some (resource_event RESOURCE_UPDATED ''b'' ''light'')) []
      = (None,
         [(''first'', RESOURCE_UPDATED, Some (resource_event RESOURCE_UPDATED ''b'' ''light'')),
          (''second'', RESOURCE_UPDATED, Some (resource_event RESOURCE_UPDATED ''b'' ''light''))])
   \<and> emit [(listener ''first'' True, None, None),
            (listener ''second'' False, None, Some [''light''])]
        RESOURCE_UPDATED (Some (resource_event RESOURCE_UPDATED ''b'' ''light'')) []
      = (Some CallbackError,
         [(''first'', RESOURCE_UPDATED, Some (resource_event RESOURCE_UPDATED ''b'' ''light''))])
   \<and> emit [(listener ''first'' True, Some [RESOURCE_ADDED], None),
            (listener ''second'' False, None, Some [''light''])]
        RESOURCE_UPDATED (Some (resource_event RESOURCE_UPDATED ''b'' ''light'')) []
      = (None,
         [(''second'', RESOURCE_UPDATED, Some (resource_event RESOURCE_UPDATED ''b'' ''light''))])"
  by (simp add: subscription_matches_def type_excluded_def category_excluded_def
        resource_filtered_def)

text \<open>
  C4. A plain callback that raises: \<^verbatim>\<open>emit\<close> has no \<^verbatim>\<open>try\<close> around the call, so the
  exception leaves \<^verbatim>\<open>emit\<close> before the second callback is called, and it leaves the
  processor, which has none either, with the second event still in the queue.
\<close>

theorem raising_callback_stops_processor:
  "emit [(listener ''first'' True, None, None), (listener ''second'' False, None, None)]
       RESOURCE_UPDATED (Some (resource_event RESOURCE_UPDATED ''b'' ''light'')) []
     = (Some CallbackError,
        [(''first'', RESOURCE_UPDATED, Some (resource_event RESOURCE_UPDATED ''b'' ''light''))])
   \<and> event_processor
       ((scenario_stream {''b''}
           [(listener ''first'' True, None, None), (listener ''second'' False, None, None)])
          \<lparr>es_event_queue := [resource_event RESOURCE_UPDATED ''b'' ''light'',
                              deleted_event ''b'']\<rparr>)
     = (Some CallbackError,
        (scenario_stream {''b''}
           [(listener ''first'' True, None, None), (listener ''second'' False, None, None)])
          \<lparr>es_event_queue := [deleted_event ''b''],
            es_calls := [(''first'', RESOURCE_UPDATED,
                          Some (resource_event RESOURCE_UPDATED ''b'' ''light''))]\<rparr>)"
  by (simp add: event_processor_def resource_filtered_def scenario_stream_def)

lemma event_reader_pass_calls:
  "es_calls (snd (event_reader_pass iter_order fetched st)) = es_calls st"
  "es_subscribers (snd (event_reader_pass iter_order fetched st)) = es_subscribers st"
  by (cases fetched;
      simp add: event_reader_pass_def split: prod.splits option.splits)+

lemma event_reader_passes_calls:
  "es_calls (snd (event_reader_passes polls st)) = es_calls st
   \<and> es_subscribers (snd (event_reader_passes polls st)) = es_subscribers st"
proof (induction polls arbitrary: st)
  case Nil
  then show ?case by simp
next
  case (Cons poll polls)
  obtain iter_order fetched where p: "poll = (iter_order, fetched)" by (cases poll)
  obtain err st' where r: "event_reader_pass iter_order fetched st = (err, st')"
    by (cases "event_reader_pass iter_order fetched st")
  from event_reader_pass_calls [of iter_order fetched st] r
  have k: "es_calls st' = es_calls st" "es_subscribers st' = es_subscribers st" by simp_all
  show ?case
  proof (cases err)
    case None
    with p r k Cons.IH [of st'] show ?thesis by simp
  next
    case (Some e)
    with p r k show ?thesis by simp
  qed
qed

lemma event_reader_calls:
  "es_calls (snd (event_reader polls st)) = es_calls st"
  using event_reader_passes_calls [of polls "st\<lparr>es_status := ST_CONNECTING\<rparr>"]
  by (simp add: event_reader_def)

text \<open>
  C3. The reader calls no subscriber and queues only resource events, so no connection
  event reaches a subscriber. With a registry that holds \<open>x\<close> and a listener for every
  event: after two polls that fail with a client error, and after the processor has run,
  the listener has not been called; after a poll that succeeds from a status that is not
  CONNECTED, the listener has been called for the update of \<open>x\<close> only, and the status is
  DISCONNECTED.
\<close>

theorem reader_emits_no_connection_event:
  "event_reader [([''x''], FetchClientError), ([''x''], FetchClientError)]
       (scenario_stream {''x''} [(listener ''l'' False, None, None)])
     = (None, (scenario_stream {''x''} [(listener ''l'' False, None, None)])
                \<lparr>es_status := ST_DISCONNECTED\<rparr>)
   \<and> es_calls (snd (event_processor (snd (event_reader
          [([''x''], FetchClientError), ([''x''], FetchClientError)]
          (scenario_stream {''x''} [(listener ''l'' False, None, None)]))))) = []
   \<and> es_status (snd (event_reader [([''x''], Fetched [snapshot_of ''x'' ''light''])]
          (scenario_stream {''x''} [(listener ''l'' False, None, None)]))) = ST_DISCONNECTED
   \<and> es_calls (snd (event_processor (snd (event_reader
          [([''x''], Fetched [snapshot_of ''x'' ''light''])]
          (scenario_stream {''x''} [(listener ''l'' False, None, None)])))))
       = [(''l'', RESOURCE_UPDATED, Some (resource_event RESOURCE_UPDATED ''x'' ''light''))]"
  by (simp add: event_reader_def event_reader_pass_def event_processor_def
        scenario_stream_def tracked_devices_def add_device_def resource_filtered_def
        resource_event_def Let_def)

text \<open>
  The \<^verbatim>\<open>else\<close> clause of the reader removes from the set it iterates. With two ids of the
  registry missing from the fetched data, the pass queues a \<^verbatim>\<open>delete\<close> for the first only,
  and RuntimeError leaves the reader with the second still in the registry.
\<close>

lemma deletion_stops_after_first:
  "event_reader_pass [''x'', ''y''] (Fetched []) (scenario_stream {''x'', ''y''} [])
     = (Some RuntimeError,
        (scenario_stream {''y''} [])\<lparr>es_event_queue := [deleted_event ''x'']\<rparr>)"
  by (auto simp: event_reader_pass_def scenario_stream_def tracked_devices_def
        remove_device_def deleted_event_def Let_def)

end
